theory Spec2Isabelle
  imports Main "HOL-Library.Sublist"
begin

text \<open>
  A model of \<^verbatim>\<open>app.py\<close>, the front end of an OCR pipeline: the HTML preview adapter
  \<open>modify_html_for_better_display\<close> and the two handlers \<open>process_pdf\<close> and
  \<open>process_multiple_pdfs\<close>, each translated from its source; line numbers are those of
  \<^verbatim>\<open>app.py\<close>. The handlers work on files and child processes, so they are functions of
  an environment and a state of the world, and return the new state. The making of the
  workspace directory when the module is loaded (line 16) and the wiring of the user
  interface (lines 183 to 279) are not part of the model.
\<close>

section \<open>Python strings\<close>

text \<open>
  A Python \<open>str\<close> is a sequence of Unicode code points, so it is modelled as a list of
  natural numbers. \<open>ascii\<close> turns an ASCII literal into such a list; characters outside
  ASCII are written by their code point.
\<close>

type_synonym str = "nat list"

definition ascii :: "string \<Rightarrow> str" where
  "ascii s = map of_char s"

text \<open>
  \<open>s.replace(old, new)\<close>: every non-overlapping occurrence of \<open>old\<close>, found from left
  to right, is replaced by \<open>new\<close>. With an empty \<open>old\<close> Python inserts \<open>new\<close> before every
  character and at the end.
\<close>

function str_replace :: "str \<Rightarrow> str \<Rightarrow> str \<Rightarrow> str" where
  "str_replace old new s =
     (if old = [] then concat (map (\<lambda>c. new @ [c]) s) @ new
      else if s = [] then []
      else if prefix old s then new @ str_replace old new (drop (length old) s)
      else hd s # str_replace old new (tl s))"
  by pat_completeness auto
termination
  by (relation "measure (\<lambda>(old, new, s). length s)") auto

declare str_replace.simps [simp del]

text \<open>\<open>s.strip()\<close> removes leading and trailing characters for which \<open>str.isspace\<close> holds.\<close>

definition isspace :: "nat \<Rightarrow> bool" where
  "isspace c \<longleftrightarrow>
     (0x09 \<le> c \<and> c \<le> 0x0D) \<or> (0x1C \<le> c \<and> c \<le> 0x20) \<or> c = 0x85 \<or> c = 0xA0 \<or>
     c = 0x1680 \<or> (0x2000 \<le> c \<and> c \<le> 0x200A) \<or> c = 0x2028 \<or> c = 0x2029 \<or>
     c = 0x202F \<or> c = 0x205F \<or> c = 0x3000"

definition strip :: "str \<Rightarrow> str" where
  "strip s = rev (dropWhile isspace (rev (dropWhile isspace s)))"

section \<open>The HTML preview adapter\<close>

text \<open>
  The regular expression of line 42, \<^verbatim>\<open><img([^>]*)style="([^"]*)"\<close>, as a matcher at
  the start of a string. \<open>match_style\<close> matches \<^verbatim>\<open>style="([^"]*)"\<close>: the second group is the
  text up to the next double quote, which has to exist. \<open>match_attrs\<close> matches
  \<^verbatim>\<open>([^>]*)style="([^"]*)"\<close>: the first group is greedy, so the longest run of characters
  other than \<^verbatim>\<open>>\<close> after which the rest matches is taken. Both return the groups and the text
  after the match.
\<close>

definition match_style :: "str \<Rightarrow> (str \<times> str) option" where
  \<open>match_style s =
     (if prefix (ascii ''style="'') s then
        (let t = drop 7 s; g2 = takeWhile (\<lambda>c. c \<noteq> 0x22) t
         in if length g2 < length t then Some (g2, drop (Suc (length g2)) t) else None)
      else None)\<close>

fun match_attrs :: "str \<Rightarrow> (str \<times> str \<times> str) option" where
  "match_attrs [] = None"
| "match_attrs (c # cs) =
     (if c = 0x3E then None
      else case match_attrs cs of
             Some (g1, g2, r) \<Rightarrow> Some (c # g1, g2, r)
           | None \<Rightarrow> (case match_style (c # cs) of
                        Some (g2, r) \<Rightarrow> Some ([], g2, r)
                      | None \<Rightarrow> None))"

definition match_img :: "str \<Rightarrow> (str \<times> str \<times> str) option" where
  "match_img s = (if prefix (ascii ''<img'') s then match_attrs (drop 4 s) else None)"

lemma match_style_shorter: "match_style s = Some (g2, r) \<Longrightarrow> length r < length s"
  by (auto simp: match_style_def Let_def split: if_splits)

lemma match_attrs_shorter: "match_attrs s = Some (g1, g2, r) \<Longrightarrow> length r < length s"
proof (induction s arbitrary: g1 g2 r)
  case Nil
  then show ?case by simp
next
  case (Cons c cs)
  show ?case
  proof (cases "match_attrs cs")
    case None
    with Cons.prems have "match_style (c # cs) = Some (g2, r)"
      by (auto split: if_splits option.splits)
    then show ?thesis by (rule match_style_shorter)
  next
    case (Some m)
    obtain h1 h2 r' where m: "m = (h1, h2, r')" by (cases m)
    with Some Cons.prems have "r' = r" by (auto split: if_splits)
    with Some m Cons.IH [of h1 h2 r] show ?thesis by simp
  qed
qed

lemma match_img_shorter: "match_img s = Some (g1, g2, r) \<Longrightarrow> length r < length s"
  by (auto simp: match_img_def split: if_splits dest!: match_attrs_shorter)

text \<open>
  \<open>re.sub\<close> with that pattern and the replacement of line 43: the string is scanned from
  the left; at a match the replacement is emitted and the scan goes on after the match,
  otherwise one character is copied.
\<close>

function re_sub_img :: "str \<Rightarrow> str" where
  \<open>re_sub_img s =
     (case match_img s of
        Some (g1, g2, r) \<Rightarrow>
          ascii ''<img'' @ g1 @ ascii ''style="max-width: 100%; height: auto; '' @ g2 @
          ascii ''"'' @ re_sub_img r
      | None \<Rightarrow> (case s of [] \<Rightarrow> [] | c # cs \<Rightarrow> c # re_sub_img cs))\<close>
  by pat_completeness auto
termination
  by (relation "measure length") (auto dest: match_img_shorter)

declare re_sub_img.simps [simp del]

definition zoom_controls :: str where
  \<open>zoom_controls =
     ascii ''\<newline>'' @
     ascii ''    <div style="position: fixed; bottom: 20px; right: 20px; background: #fff; padding: 10px; border-radius: 5px; box-shadow: 0 0 10px rgba(0,0,0,0.2); z-index: 1000;">\<newline>'' @
     ascii ''        <button onclick="document.body.style.zoom = parseFloat(document.body.style.zoom || 1) + 0.1;" style="margin-right: 5px;">'' @
     [0x653E, 0x5927] @
     ascii ''</button>\<newline>'' @
     ascii ''        <button onclick="document.body.style.zoom = parseFloat(document.body.style.zoom || 1) - 0.1;">'' @
     [0x7F29, 0x5C0F] @
     ascii ''</button>\<newline>'' @
     ascii ''    </div>\<newline>'' @
     ascii ''    ''\<close>

text \<open>
  \<open>modify_html_for_better_display\<close>, lines 18 to 55. Its only caller passes the text read
  from a preview file, so the argument is a string; the empty string is returned as it is.
\<close>

definition modify_html_for_better_display :: "str \<Rightarrow> str" where
  \<open>modify_html_for_better_display html_content =
     (if html_content = [] then html_content
      else
        let html_content = str_replace (ascii ''<div class="container">'')
              (ascii ''<div class="container" style="max-width: 100%; width: 100%;">'')
              html_content;
            html_content = str_replace (ascii ''<style>'')
              (ascii ''<style>\<newline>'' @
               ascii ''body {font-size: 16px;}\<newline>'' @
               ascii ''.text-content {font-size: 16px; line-height: 1.5;}\<newline>'')
              html_content;
            html_content = str_replace (ascii ''<div class="row">'')
              (ascii ''<div class="row" style="display: flex; flex-wrap: wrap;">'')
              html_content;
            html_content = str_replace (ascii ''<div class="col-md-6">'')
              (ascii ''<div class="col-md-6" style="flex: 0 0 50%; max-width: 50%; padding: 15px;">'')
              html_content;
            html_content = str_replace (ascii ''<div class="page">'')
              (ascii ''<div class="page" style="margin-bottom: 30px; border-bottom: 1px solid #ccc; padding-bottom: 20px;">'')
              html_content;
            html_content = re_sub_img html_content;
            html_content = str_replace (ascii ''</body>'') (zoom_controls @ ascii ''</body>'')
              html_content
        in html_content)\<close>

section \<open>Paths and numbers as text\<close>

type_synonym path = str

text \<open>\<open>s.rfind(c)\<close> for a single character: the index of its last occurrence, or \<open>-1\<close>.\<close>

definition rfind :: "nat \<Rightarrow> str \<Rightarrow> int" where
  "rfind c s =
     (if c \<in> set s then int (length s) - 1 - int (length (takeWhile (\<lambda>x. x \<noteq> c) (rev s)))
      else - 1)"

text \<open>
  \<open>os.path.basename\<close>, \<open>os.path.splitext\<close> and \<open>os.path.join\<close> (two arguments) of the
  POSIX path module. \<open>splitext\<close> splits at the last dot after the last slash, unless only
  dots precede it in the file name.
\<close>

definition basename :: "path \<Rightarrow> path" where
  "basename p = drop (nat (rfind 0x2F p + 1)) p"

definition splitext :: "path \<Rightarrow> path \<times> str" where
  "splitext p =
     (let sepIndex = rfind 0x2F p; dotIndex = rfind 0x2E p
      in if dotIndex > sepIndex \<and>
            list_ex (\<lambda>c. c \<noteq> 0x2E) (take (nat (dotIndex - (sepIndex + 1))) (drop (nat (sepIndex + 1)) p))
         then (take (nat dotIndex) p, drop (nat dotIndex) p)
         else (p, []))"

definition path_join :: "path \<Rightarrow> path \<Rightarrow> path" where
  "path_join a b =
     (if prefix [0x2F] b then b
      else if a = [] \<or> suffix [0x2F] a then a @ b
      else a @ [0x2F] @ b)"

text \<open>\<open>str(n)\<close> for an integer: its decimal digits, with a minus sign when negative.\<close>

fun str_nat :: "nat \<Rightarrow> str" where
  "str_nat n = (if n < 10 then [0x30 + n] else str_nat (n div 10) @ [0x30 + n mod 10])"

declare str_nat.simps [simp del]

definition str_int :: "int \<Rightarrow> str" where
  "str_int i = (if i < 0 then 0x2D # str_nat (nat (- i)) else str_nat (nat i))"

section \<open>Values, exceptions and the environment\<close>

text \<open>
  The values \<open>json.loads\<close> returns. A dictionary keeps its keys in insertion order, so it
  is an association list; a float is carried by its \<open>repr\<close>.
\<close>

datatype pyval =
    PNone
  | PBool bool
  | PInt int
  | PFloat str
  | PStr str
  | PList "pyval list"
  | PDict "(str \<times> pyval) list"

definition type_name :: "pyval \<Rightarrow> str" where
  "type_name v =
     (case v of PNone \<Rightarrow> ascii ''NoneType'' | PBool _ \<Rightarrow> ascii ''bool'' | PInt _ \<Rightarrow> ascii ''int''
      | PFloat _ \<Rightarrow> ascii ''float'' | PStr _ \<Rightarrow> ascii ''str'' | PList _ \<Rightarrow> ascii ''list''
      | PDict _ \<Rightarrow> ascii ''dict'')"

text \<open>
  The handlers of \<open>process_pdf\<close> tell \<open>subprocess.CalledProcessError\<close> from every other
  \<open>Exception\<close>, and read \<open>str(e)\<close> and \<open>e.stderr\<close>: an exception carries just these.
\<close>

datatype exn =
    CalledProcessError (exn_str: str) (exn_stderr: "str option")
  | Exception (exn_str: str)

text \<open>How an f-string prints a value that is a string or \<open>None\<close>.\<close>

definition fmt_opt :: "str option \<Rightarrow> str" where
  "fmt_opt x = (case x of Some s \<Rightarrow> s | None \<Rightarrow> ascii ''None'')"

definition attribute_error :: "pyval \<Rightarrow> str \<Rightarrow> exn" where
  "attribute_error v attr =
     Exception ([0x27] @ type_name v @ [0x27] @ ascii '' object has no attribute '' @
                [0x27] @ attr @ [0x27])"

text \<open>
  \<open>v.get(key, dflt)\<close> and \<open>v.items()\<close>: only a dictionary has these methods, any
  other value raises \<open>AttributeError\<close>. \<open>dict_get\<close> is the lookup in the dictionary itself.
\<close>

definition dict_get :: "(str \<times> pyval) list \<Rightarrow> str \<Rightarrow> pyval \<Rightarrow> pyval" where
  "dict_get kvs key dflt = (case map_of kvs key of Some x \<Rightarrow> x | None \<Rightarrow> dflt)"

definition py_get :: "pyval \<Rightarrow> str \<Rightarrow> pyval \<Rightarrow> exn + pyval" where
  "py_get v key dflt =
     (case v of
        PDict kvs \<Rightarrow> Inr (dict_get kvs key dflt)
      | _ \<Rightarrow> Inl (attribute_error v (ascii ''get'')))"

definition py_items :: "pyval \<Rightarrow> exn + (str \<times> pyval) list" where
  "py_items v =
     (case v of
        PDict kvs \<Rightarrow> Inr kvs
      | _ \<Rightarrow> Inl (attribute_error v (ascii ''items'')))"

text \<open>A \<open>pandas.DataFrame\<close> built from a list of rows and the column names.\<close>

record dataframe =
  df_rows :: "pyval list list"
  df_columns :: "str list"

text \<open>
  Everything outside the repository that the two handlers call: the clock, the file
  system, child processes, the JSON parser and the zip writer. \<open>'w\<close> is the state of the
  world (files, running time); an operation that changes it returns the new state, and an
  operation that can raise returns the exception instead of a value.

  \<^item> \<open>time_time\<close>: \<open>int(time.time())\<close>.
  \<^item> \<open>os_makedirs p\<close>: \<open>os.makedirs(p, exist_ok=True)\<close>.
  \<^item> \<open>shutil_copy src dst\<close>: \<open>shutil.copy(src, dst)\<close>.
  \<^item> \<open>run_piped cmd\<close>: the child process \<open>cmd\<close> run to its end with standard output and
    standard error captured as text: exit status, output, error output.
  \<^item> \<open>run_plain cmd\<close>: the same with nothing captured: exit status.
  \<^item> \<open>cpe_str cmd status\<close>: \<open>str(e)\<close> of the \<open>CalledProcessError\<close> for that command and status.
  \<^item> \<open>path_exists p\<close>: \<open>os.path.exists(p)\<close>.
  \<^item> \<open>path_glob d pattern\<close>: \<open>list(Path(d).glob(pattern))\<close>, in the order of the listing.
  \<^item> \<open>read_text p encoding\<close>: \<open>open(p, "r", encoding=encoding).read()\<close>; \<open>None\<close> is the
    default encoding.
  \<^item> \<open>open_w p encoding\<close>: \<open>open(p, "w", encoding=encoding)\<close>, which creates or empties \<open>p\<close>.
  \<^item> \<open>file_write p s\<close>: \<open>f.write(s)\<close> on the file opened at \<open>p\<close>, and closing it.
  \<^item> \<open>json_loads\<close>: \<open>json.loads\<close>.
  \<^item> \<open>zip_open p\<close>: \<open>zipfile.ZipFile(p, 'w', zipfile.ZIP_DEFLATED)\<close>.
  \<^item> \<open>zip_writestr p name data\<close>: \<open>writestr(name, data)\<close> on the archive opened at \<open>p\<close>.
  \<^item> \<open>zip_close p\<close>: closing that archive, at the end of the \<open>with\<close> block.
\<close>

record 'w env =
  time_time :: "'w \<Rightarrow> int"
  os_makedirs :: "path \<Rightarrow> 'w \<Rightarrow> exn option \<times> 'w"
  shutil_copy :: "path \<Rightarrow> path \<Rightarrow> 'w \<Rightarrow> exn option \<times> 'w"
  run_piped :: "str list \<Rightarrow> 'w \<Rightarrow> (exn + int \<times> str \<times> str) \<times> 'w"
  run_plain :: "str list \<Rightarrow> 'w \<Rightarrow> (exn + int) \<times> 'w"
  cpe_str :: "str list \<Rightarrow> int \<Rightarrow> str"
  path_exists :: "path \<Rightarrow> 'w \<Rightarrow> bool"
  path_glob :: "path \<Rightarrow> str \<Rightarrow> 'w \<Rightarrow> exn + path list"
  read_text :: "path \<Rightarrow> str option \<Rightarrow> 'w \<Rightarrow> exn + str"
  open_w :: "path \<Rightarrow> str \<Rightarrow> 'w \<Rightarrow> exn option \<times> 'w"
  file_write :: "path \<Rightarrow> str \<Rightarrow> 'w \<Rightarrow> exn option \<times> 'w"
  json_loads :: "str \<Rightarrow> exn + pyval"
  zip_open :: "path \<Rightarrow> 'w \<Rightarrow> exn option \<times> 'w"
  zip_writestr :: "path \<Rightarrow> str \<Rightarrow> str \<Rightarrow> 'w \<Rightarrow> exn option \<times> 'w"
  zip_close :: "path \<Rightarrow> 'w \<Rightarrow> exn option \<times> 'w"

text \<open>
  \<open>subprocess.run(cmd, stdout=PIPE, stderr=PIPE, text=True, check=True)\<close> and
  \<open>subprocess.run(cmd, check=True)\<close>: with \<open>check=True\<close> a non-zero exit status raises
  \<open>CalledProcessError\<close>, which carries the captured error output. The first returns the
  captured standard output of the completed process.
\<close>

definition subprocess_run_piped :: "'w env \<Rightarrow> str list \<Rightarrow> 'w \<Rightarrow> (exn + str) \<times> 'w" where
  "subprocess_run_piped env cmd w =
     (case run_piped env cmd w of
        (Inl e, w') \<Rightarrow> (Inl e, w')
      | (Inr (returncode, out, err), w') \<Rightarrow>
          if returncode \<noteq> 0 then (Inl (CalledProcessError (cpe_str env cmd returncode) (Some err)), w')
          else (Inr out, w'))"

definition subprocess_run_plain :: "'w env \<Rightarrow> str list \<Rightarrow> 'w \<Rightarrow> (exn + unit) \<times> 'w" where
  "subprocess_run_plain env cmd w =
     (case run_plain env cmd w of
        (Inl e, w') \<Rightarrow> (Inl e, w')
      | (Inr returncode, w') \<Rightarrow>
          if returncode \<noteq> 0 then (Inl (CalledProcessError (cpe_str env cmd returncode) None), w')
          else (Inr (), w'))"

section \<open>The single-file handler\<close>

text \<open>
  The fixed texts of the handlers. In English: "please upload a PDF file" (lines 60 and
  157); "processing finished, but no results directory was produced" and "processing
  finished, but no output file was found", each followed by "log output:" (lines 95 and
  100); "the output file is empty", followed by "log output:" (line 108); "no text content
  found" (line 112); "generating the HTML preview failed:" (line 119); "reading the HTML
  preview failed:" (line 131); the column names "attribute" and "value" (line 139);
  "command execution failed:" (line 150); "an error occurred during processing:" (line
  152); "all files processed!" (line 181).
\<close>

definition WORKSPACE_DIR :: path where
  "WORKSPACE_DIR = ascii ''olmocr_workspace''"

definition msg_upload_pdf :: str where
  "msg_upload_pdf = [0x8BF7, 0x4E0A, 0x4F20] @ ascii ''PDF'' @ [0x6587, 0x4EF6]"

definition msg_no_results_dir :: str where
  "msg_no_results_dir =
     [0x5904, 0x7406, 0x5B8C, 0x6210, 0xFF0C, 0x4F46, 0x672A, 0x751F, 0x6210, 0x7ED3, 0x679C,
      0x76EE, 0x5F55] @
     ascii ''\<newline>\<newline>'' @ [0x65E5, 0x5FD7, 0x8F93, 0x51FA] @ ascii '':\<newline>''"

definition msg_no_output_file :: str where
  "msg_no_output_file =
     [0x5904, 0x7406, 0x5B8C, 0x6210, 0xFF0C, 0x4F46, 0x672A, 0x627E, 0x5230, 0x8F93, 0x51FA,
      0x6587, 0x4EF6] @
     ascii ''\<newline>\<newline>'' @ [0x65E5, 0x5FD7, 0x8F93, 0x51FA] @ ascii '':\<newline>''"

definition msg_output_empty :: str where
  "msg_output_empty =
     [0x8F93, 0x51FA, 0x6587, 0x4EF6, 0x4E3A, 0x7A7A] @
     ascii ''\<newline>\<newline>'' @ [0x65E5, 0x5FD7, 0x8F93, 0x51FA] @ ascii '':\<newline>''"

definition text_not_found :: str where
  "text_not_found = [0x672A, 0x627E, 0x5230, 0x6587, 0x672C, 0x5185, 0x5BB9]"

definition msg_preview_failed :: str where
  "msg_preview_failed =
     ascii ''\<newline>'' @ [0x751F, 0x6210] @ ascii ''HTML'' @ [0x9884, 0x89C8, 0x5931, 0x8D25] @
     ascii '': ''"

definition msg_preview_read_failed :: str where
  "msg_preview_read_failed =
     ascii ''\<newline>'' @ [0x8BFB, 0x53D6] @ ascii ''HTML'' @ [0x9884, 0x89C8, 0x5931, 0x8D25] @
     ascii '': ''"

definition col_attribute :: str where
  "col_attribute = [0x5C5E, 0x6027]"

definition col_value :: str where
  "col_value = [0x503C]"

definition msg_command_failed :: str where
  "msg_command_failed = [0x547D, 0x4EE4, 0x6267, 0x884C, 0x5931, 0x8D25] @ ascii '': ''"

definition msg_processing_error :: str where
  "msg_processing_error =
     [0x5904, 0x7406, 0x8FC7, 0x7A0B, 0x4E2D, 0x53D1, 0x751F, 0x9519, 0x8BEF] @ ascii '': ''"

definition msg_all_done :: str where
  "msg_all_done = [0x6240, 0x6709, 0x6587, 0x4EF6, 0x5904, 0x7406, 0x5B8C, 0x6210, 0xFF01]"

text \<open>
  The five values \<open>process_pdf\<close> returns: log, extracted text, HTML preview, metadata
  table, path of the download file.
\<close>

type_synonym outputs = "str \<times> str \<times> str option \<times> dataframe option \<times> path option"

text \<open>\<open>f.write(v)\<close> on a text file raises \<open>TypeError\<close> unless \<open>v\<close> is a string.\<close>

definition write_type_error :: "pyval \<Rightarrow> exn" where
  "write_type_error v = Exception (ascii ''write() argument must be str, not '' @ type_name v)"

text \<open>
  Lines 110 to 147 of \<open>process_pdf\<close>: from parsing the content of the output file to the
  return of the five results. An exception leaves through \<open>Inl\<close>, to the handlers of lines
  149 to 152. The calls of \<open>progress\<close> only report to the user interface and are left out.
\<close>

definition process_pdf_output ::
  "'w env \<Rightarrow> path \<Rightarrow> str \<Rightarrow> path \<Rightarrow> str \<Rightarrow> str \<Rightarrow> 'w \<Rightarrow> (exn + outputs) \<times> 'w" where
  "process_pdf_output env work_dir original_filename output_file log_text content w =
     (case json_loads env content of
        Inl e \<Rightarrow> (Inl e, w)
      | Inr result \<Rightarrow>
     (case py_get result (ascii ''text'') (PStr text_not_found) of
        Inl e \<Rightarrow> (Inl e, w)
      | Inr extracted_text \<Rightarrow>
     (case subprocess_run_plain env
             [ascii ''python'', ascii ''-m'', ascii ''olmocr.viewer.dolmaviewer'', output_file] w of
        (r, w1) \<Rightarrow>
      let log_text = (case r of
                        Inl e \<Rightarrow> log_text @ msg_preview_failed @ exn_str e
                      | Inr _ \<Rightarrow> log_text)
      in
     (case path_glob env (ascii ''dolma_previews'') (ascii ''*.html'') w1 of
        Inl e \<Rightarrow> (Inl e, w1)
      | Inr html_files \<Rightarrow>
      let (html_content, log_text) =
            (case html_files of
               [] \<Rightarrow> ([], log_text)
             | html_file # _ \<Rightarrow>
                 (case read_text env html_file (Some (ascii ''utf-8'')) w1 of
                    Inl e \<Rightarrow> ([], log_text @ msg_preview_read_failed @ exn_str e)
                  | Inr html \<Rightarrow> (modify_html_for_better_display html, log_text)))
      in
     (case py_get result (ascii ''metadata'') (PDict []) of
        Inl e \<Rightarrow> (Inl e, w1)
      | Inr metadata \<Rightarrow>
     (case py_items metadata of
        Inl e \<Rightarrow> (Inl e, w1)
      | Inr items \<Rightarrow>
      let meta_rows = map (\<lambda>(key, val). [PStr key, val]) items;
          df = \<lparr>df_rows = meta_rows, df_columns = [col_attribute, col_value]\<rparr>;
          download_file = path_join work_dir (original_filename @ ascii ''_extracted_text.txt'')
      in
     (case open_w env download_file (ascii ''utf-8'') w1 of
        (Some e, w2) \<Rightarrow> (Inl e, w2)
      | (None, w2) \<Rightarrow>
     (case extracted_text of
        PStr s \<Rightarrow>
          (case file_write env download_file s w2 of
             (Some e, w3) \<Rightarrow> (Inl e, w3)
           | (None, w3) \<Rightarrow>
               (Inr (log_text, s, Some html_content, Some df, Some download_file), w3))
      | _ \<Rightarrow> (Inl (write_type_error extracted_text), w2)))))))))"

text \<open>Lines 78 to 108: the body of the \<open>try\<close> block up to the reading of the output file.\<close>

definition process_pdf_try ::
  "'w env \<Rightarrow> path \<Rightarrow> path \<Rightarrow> str \<Rightarrow> 'w \<Rightarrow> (exn + outputs) \<times> 'w" where
  "process_pdf_try env work_dir pdf_path original_filename w =
     (case subprocess_run_piped env
             [ascii ''python'', ascii ''-m'', ascii ''olmocr.pipeline'', work_dir, ascii ''--pdfs'',
              pdf_path] w of
        (Inl e, w1) \<Rightarrow> (Inl e, w1)
      | (Inr log_text, w1) \<Rightarrow>
          let results_dir = path_join work_dir (ascii ''results'') in
          if \<not> path_exists env results_dir w1
          then (Inr (msg_no_results_dir @ log_text, [], None, None, None), w1)
          else
            (case path_glob env results_dir (ascii ''output_*.jsonl'') w1 of
               Inl e \<Rightarrow> (Inl e, w1)
             | Inr [] \<Rightarrow> (Inr (msg_no_output_file @ log_text, [], None, None, None), w1)
             | Inr (output_file # _) \<Rightarrow>
                 (case read_text env output_file None w1 of
                    Inl e \<Rightarrow> (Inl e, w1)
                  | Inr raw \<Rightarrow>
                      let content = strip raw in
                      if content = []
                      then (Inr (msg_output_empty @ log_text, [], None, None, None), w1)
                      else process_pdf_output env work_dir original_filename output_file
                             log_text content w1)))"

text \<open>
  \<open>process_pdf\<close>, lines 57 to 152. The job directory is made and the input copied before
  the \<open>try\<close> block, so an exception of these two steps leaves the function (\<open>Inl\<close>); an
  exception of the \<open>try\<close> block becomes a message in the first result.
\<close>

definition process_pdf :: "'w env \<Rightarrow> path option \<Rightarrow> 'w \<Rightarrow> (exn + outputs) \<times> 'w" where
  "process_pdf env pdf_file w =
     (case pdf_file of
        None \<Rightarrow> (Inr (msg_upload_pdf, [], None, None, None), w)
      | Some pdf_file \<Rightarrow>
          let timestamp = time_time env w;
              work_dir = path_join WORKSPACE_DIR (ascii ''job_'' @ str_int timestamp)
          in
          (case os_makedirs env work_dir w of
             (Some e, w1) \<Rightarrow> (Inl e, w1)
           | (None, w1) \<Rightarrow>
               let original_filename = fst (splitext (basename pdf_file));
                   pdf_path = path_join work_dir (ascii ''input.pdf'')
               in
               (case shutil_copy env pdf_file pdf_path w1 of
                  (Some e, w2) \<Rightarrow> (Inl e, w2)
                | (None, w2) \<Rightarrow>
                    (case process_pdf_try env work_dir pdf_path original_filename w2 of
                       (Inr out, w3) \<Rightarrow> (Inr out, w3)
                     | (Inl (CalledProcessError _ err), w3) \<Rightarrow>
                         (Inr (msg_command_failed @ fmt_opt err, [], None, None, None), w3)
                     | (Inl (Exception msg), w3) \<Rightarrow>
                         (Inr (msg_processing_error @ msg, [], None, None, None), w3)))))"

section \<open>The batch handler\<close>

text \<open>
  The archive is the \<open>ZipFile\<close> object of line 166: the list of its members, each a name
  and its data, in the order of the \<open>writestr\<close> calls that succeeded.
\<close>

type_synonym archive = "(str \<times> str) list"

text \<open>
  The loop of lines 168 to 179 over the files that are left, with the archive at
  \<open>zip_path\<close> open and \<open>zipf\<close> its members so far. It returns the exception that stopped
  it, if any.
\<close>

fun process_multiple_pdfs_loop ::
  "'w env \<Rightarrow> path \<Rightarrow> path list \<Rightarrow> archive \<Rightarrow> 'w \<Rightarrow> exn option \<times> archive \<times> 'w" where
  "process_multiple_pdfs_loop env zip_path [] zipf w = (None, zipf, w)"
| "process_multiple_pdfs_loop env zip_path (pdf_file # pdf_files) zipf w =
     (case process_pdf env (Some pdf_file) w of
        (Inl e, w1) \<Rightarrow> (Some e, zipf, w1)
      | (Inr (log_text, extracted_text, _), w1) \<Rightarrow>
          let original_filename = fst (splitext (basename pdf_file));
              text_filename = original_filename @ ascii ''_extracted_text.txt''
          in
          (case zip_writestr env zip_path text_filename extracted_text w1 of
             (Some e, w2) \<Rightarrow> (Some e, zipf, w2)
           | (None, w2) \<Rightarrow>
               process_multiple_pdfs_loop env zip_path pdf_files
                 (zipf @ [(text_filename, extracted_text)]) w2))"

text \<open>
  \<open>process_multiple_pdfs\<close>, lines 154 to 181. \<open>pdf_files\<close> is \<open>None\<close> or a list of paths.
  The result is the returned pair (or the exception that left the function), the archive
  written (\<open>None\<close> when none was opened) and the new state of the world. Leaving the
  \<open>with\<close> block closes the archive, also when an exception leaves it.
\<close>

definition process_multiple_pdfs ::
  "'w env \<Rightarrow> path list option \<Rightarrow> 'w \<Rightarrow> (exn + str \<times> path option) \<times> archive option \<times> 'w" where
  "process_multiple_pdfs env pdf_files w =
     (case pdf_files of
        None \<Rightarrow> (Inr (msg_upload_pdf, None), None, w)
      | Some [] \<Rightarrow> (Inr (msg_upload_pdf, None), None, w)
      | Some pdf_files \<Rightarrow>
          let timestamp = time_time env w;
              batch_dir = path_join WORKSPACE_DIR (ascii ''batch_'' @ str_int timestamp)
          in
          (case os_makedirs env batch_dir w of
             (Some e, w1) \<Rightarrow> (Inl e, None, w1)
           | (None, w1) \<Rightarrow>
               let zip_path = path_join batch_dir (ascii ''extracted_texts.zip'') in
               (case zip_open env zip_path w1 of
                  (Some e, w2) \<Rightarrow> (Inl e, None, w2)
                | (None, w2) \<Rightarrow>
                    (case process_multiple_pdfs_loop env zip_path pdf_files [] w2 of
                       (raised, zipf, w3) \<Rightarrow>
                         (case zip_close env zip_path w3 of
                            (Some e, w4) \<Rightarrow> (Inl e, Some zipf, w4)
                          | (None, w4) \<Rightarrow>
                              (case raised of
                                 Some e \<Rightarrow> (Inl e, Some zipf, w4)
                               | None \<Rightarrow> (Inr (msg_all_done, Some zip_path), Some zipf, w4)))))))"

section \<open>Names for the statements\<close>

text \<open>
  The job directory \<open>process_pdf\<close> makes when it starts in the state \<open>w\<close>, the command
  lines of the extraction tool and of the preview tool (lines 75 and 116), the name of an
  item in the archive (lines 175 and 178), and the directory and path of the archive
  \<open>process_multiple_pdfs\<close> makes (lines 161 and 165).
\<close>

definition job_dir :: "'w env \<Rightarrow> 'w \<Rightarrow> path" where
  "job_dir env w = path_join WORKSPACE_DIR (ascii ''job_'' @ str_int (time_time env w))"

definition pipeline_cmd :: "path \<Rightarrow> str list" where
  "pipeline_cmd work_dir =
     [ascii ''python'', ascii ''-m'', ascii ''olmocr.pipeline'', work_dir, ascii ''--pdfs'',
      path_join work_dir (ascii ''input.pdf'')]"

definition viewer_cmd :: "path \<Rightarrow> str list" where
  "viewer_cmd output_file =
     [ascii ''python'', ascii ''-m'', ascii ''olmocr.viewer.dolmaviewer'', output_file]"

definition text_filename :: "path \<Rightarrow> str" where
  "text_filename pdf_file = fst (splitext (basename pdf_file)) @ ascii ''_extracted_text.txt''"

definition batch_dir :: "'w env \<Rightarrow> 'w \<Rightarrow> path" where
  "batch_dir env w = path_join WORKSPACE_DIR (ascii ''batch_'' @ str_int (time_time env w))"

definition batch_zip :: "'w env \<Rightarrow> 'w \<Rightarrow> path" where
  "batch_zip env w = path_join (batch_dir env w) (ascii ''extracted_texts.zip'')"

text \<open>
  The JSON text of the first testable property of the specification, and the value it
  denotes: what \<open>json.loads\<close> returns for it.
\<close>

definition hello_json :: str where
  \<open>hello_json = ascii ''{"text": "hello", "metadata": {"pages": 1}}''\<close>

definition hello_dict :: pyval where
  "hello_dict =
     PDict [(ascii ''text'', PStr (ascii ''hello'')),
            (ascii ''metadata'', PDict [(ascii ''pages'', PInt 1)])]"

text \<open>
  The extracted texts that the calls of \<open>process_pdf\<close> return for the items of a batch,
  one after the other: each call starts in the state the item before it left, after its
  text was written to the archive at \<open>zip_path\<close>. The list ends at a call that raises.
\<close>

fun batch_texts :: "'w env \<Rightarrow> path \<Rightarrow> path list \<Rightarrow> 'w \<Rightarrow> str list" where
  "batch_texts env zip_path [] w = []"
| "batch_texts env zip_path (pdf_file # pdf_files) w =
     (case process_pdf env (Some pdf_file) w of
        (Inl e, w1) \<Rightarrow> []
      | (Inr (log_text, extracted_text, _), w1) \<Rightarrow>
          extracted_text #
          batch_texts env zip_path pdf_files
            (snd (zip_writestr env zip_path (text_filename pdf_file) extracted_text w1)))"

text \<open>
  An exception that one of the operations outside every \<open>try\<close> block can raise: making a
  directory, copying an input, opening, writing or closing the archive.
\<close>

definition raised_outside_try :: "'w env \<Rightarrow> exn \<Rightarrow> bool" where
  "raised_outside_try env e \<longleftrightarrow>
     (\<exists>p w. fst (os_makedirs env p w) = Some e) \<or>
     (\<exists>src dst w. fst (shutil_copy env src dst w) = Some e) \<or>
     (\<exists>p w. fst (zip_open env p w) = Some e) \<or>
     (\<exists>p name data w. fst (zip_writestr env p name data w) = Some e) \<or>
     (\<exists>p w. fst (zip_close env p w) = Some e)"

section \<open>An environment for the examples\<close>

text \<open>
  The theorems below hold in every environment. Their examples run in this one: a file
  system in memory, with a clock, the regular files with their text (in the order of a
  listing) and the directories. Copying a file that is not there and making a directory
  where a regular file stands raise, as they do in Python. The external tools and the
  JSON parser are stand-ins, given below.
\<close>

record fs_world =
  now :: int
  files :: "(path \<times> str) list"
  dirs :: "path list"

definition put_file :: "path \<Rightarrow> str \<Rightarrow> fs_world \<Rightarrow> fs_world" where
  "put_file p content w = w\<lparr>files := filter (\<lambda>(q, _). q \<noteq> p) (files w) @ [(p, content)]\<rparr>"

definition quoted :: "str \<Rightarrow> str" where
  "quoted s = [0x27] @ s @ [0x27]"

definition fs_makedirs :: "path \<Rightarrow> fs_world \<Rightarrow> exn option \<times> fs_world" where
  "fs_makedirs p w =
     (if p \<in> set (map fst (files w))
      then (Some (Exception (ascii ''[Errno 17] File exists: '' @ quoted p)), w)
      else (None, w\<lparr>dirs := List.insert p (dirs w)\<rparr>))"

definition fs_copy :: "path \<Rightarrow> path \<Rightarrow> fs_world \<Rightarrow> exn option \<times> fs_world" where
  "fs_copy src dst w =
     (case map_of (files w) src of
        None \<Rightarrow> (Some (Exception (ascii ''[Errno 2] No such file or directory: '' @ quoted src)), w)
      | Some content \<Rightarrow> (None, put_file dst content w))"

definition fs_exists :: "path \<Rightarrow> fs_world \<Rightarrow> bool" where
  "fs_exists p w \<longleftrightarrow> p \<in> set (dirs w) \<or> p \<in> set (map fst (files w))"

text \<open>A pattern in which \<^verbatim>\<open>*\<close> stands for any text, as in the two patterns of the source.\<close>

fun fnmatch :: "str \<Rightarrow> str \<Rightarrow> bool" where
  "fnmatch [] s = (s = [])"
| "fnmatch (p # ps) s =
     (if p = 0x2A then list_ex (\<lambda>t. fnmatch ps t) (suffixes s)
      else (case s of [] \<Rightarrow> False | c # cs \<Rightarrow> c = p \<and> fnmatch ps cs))"

definition fs_glob :: "path \<Rightarrow> str \<Rightarrow> fs_world \<Rightarrow> exn + path list" where
  "fs_glob d pattern w =
     Inr (filter (\<lambda>p. prefix (d @ [0x2F]) p \<and> fnmatch pattern (drop (Suc (length d)) p))
            (map fst (files w)))"

definition fs_read :: "path \<Rightarrow> str option \<Rightarrow> fs_world \<Rightarrow> exn + str" where
  "fs_read p encoding w =
     (case map_of (files w) p of
        None \<Rightarrow> Inl (Exception (ascii ''[Errno 2] No such file or directory: '' @ quoted p))
      | Some content \<Rightarrow> Inr content)"

definition fs_open_w :: "path \<Rightarrow> str \<Rightarrow> fs_world \<Rightarrow> exn option \<times> fs_world" where
  "fs_open_w p encoding w = (None, put_file p [] w)"

definition fs_write :: "path \<Rightarrow> str \<Rightarrow> fs_world \<Rightarrow> exn option \<times> fs_world" where
  "fs_write p s w = (None, put_file p s w)"

definition fs_cpe_str :: "str list \<Rightarrow> int \<Rightarrow> str" where
  "fs_cpe_str cmd returncode =
     ascii ''Command '' @ quoted (ascii ''['' @ concat (map (\<lambda>a. quoted a @ ascii '', '') (butlast cmd)) @
       quoted (last cmd) @ ascii '']'') @
     ascii '' returned non-zero exit status '' @ str_int returncode @ ascii ''.''"

text \<open>
  Stand-ins for the extraction tool: one that fails, one that exits with status 0 and
  writes nothing, one that writes \<open>content\<close> to \<open>results/output_0.jsonl\<close> in the job directory
  (the fourth word of its command line) and takes a second, and one that does so for an
  input that starts with \<^verbatim>\<open>%PDF\<close> and fails for any other.
\<close>

definition tool_failing :: "str list \<Rightarrow> fs_world \<Rightarrow> (exn + int \<times> str \<times> str) \<times> fs_world" where
  "tool_failing cmd w = (Inr (1, [], ascii ''RuntimeError: no GPU found''), w)"

definition tool_idle :: "str list \<Rightarrow> fs_world \<Rightarrow> (exn + int \<times> str \<times> str) \<times> fs_world" where
  "tool_idle cmd w = (Inr (0, ascii ''done'', []), w)"

definition tool_writing ::
  "str \<Rightarrow> str list \<Rightarrow> fs_world \<Rightarrow> (exn + int \<times> str \<times> str) \<times> fs_world" where
  "tool_writing content cmd w =
     (let results = path_join (cmd ! 3) (ascii ''results'')
      in (Inr (0, ascii ''done'', []),
          put_file (path_join results (ascii ''output_0.jsonl'')) content
            (w\<lparr>now := now w + 1, dirs := List.insert results (dirs w)\<rparr>)))"

definition tool_checking ::
  "str \<Rightarrow> str list \<Rightarrow> fs_world \<Rightarrow> (exn + int \<times> str \<times> str) \<times> fs_world" where
  "tool_checking content cmd w =
     (case map_of (files w) (cmd ! 5) of
        Some pdf \<Rightarrow> if prefix (ascii ''%PDF'') pdf then tool_writing content cmd w
                    else tool_failing cmd w
      | None \<Rightarrow> tool_failing cmd w)"

text \<open>Stand-ins for the preview tool: one that writes a preview, one that fails.\<close>

definition viewer_writing :: "str \<Rightarrow> str list \<Rightarrow> fs_world \<Rightarrow> (exn + int) \<times> fs_world" where
  "viewer_writing html cmd w = (Inr 0, put_file (ascii ''dolma_previews/output_0.html'') html w)"

definition viewer_failing :: "str list \<Rightarrow> fs_world \<Rightarrow> (exn + int) \<times> fs_world" where
  "viewer_failing cmd w = (Inr 1, w)"

text \<open>
  The stand-in for \<open>json.loads\<close> knows two documents: \<open>hello_json\<close> and the empty object.
\<close>

definition loads_known :: "str \<Rightarrow> exn + pyval" where
  "loads_known s =
     (if s = hello_json then Inr hello_dict
      else if s = ascii ''{}'' then Inr (PDict [])
      else Inl (Exception (ascii ''Expecting value: line 1 column 1 (char 0)'')))"

definition fs_env ::
  "(str list \<Rightarrow> fs_world \<Rightarrow> (exn + int \<times> str \<times> str) \<times> fs_world) \<Rightarrow>
   (str list \<Rightarrow> fs_world \<Rightarrow> (exn + int) \<times> fs_world) \<Rightarrow> fs_world env" where
  "fs_env tool viewer =
     \<lparr>time_time = now,
      os_makedirs = fs_makedirs,
      shutil_copy = fs_copy,
      run_piped = tool,
      run_plain = viewer,
      cpe_str = fs_cpe_str,
      path_exists = fs_exists,
      path_glob = fs_glob,
      read_text = fs_read,
      open_w = fs_open_w,
      file_write = fs_write,
      json_loads = loads_known,
      zip_open = (\<lambda>p w. (None, put_file p [] w)),
      zip_writestr = (\<lambda>p name data w. (None, w)),
      zip_close = (\<lambda>p w. (None, w))\<rparr>"

text \<open>
  The starting state of the examples: two uploaded files, of which only the first is a
  PDF, and the workspace directory that line 16 makes when the program starts.
\<close>

definition world0 :: fs_world where
  "world0 =
     \<lparr>now = 1700000000,
      files = [(ascii ''/tmp/gradio/paper.pdf'', ascii ''%PDF-1.4 ...''),
               (ascii ''/tmp/gradio/notes.pdf'', ascii ''not a pdf'')],
      dirs = [ascii ''olmocr_workspace'']\<rparr>"


text \<open>
  The state in which the loop of \<open>process_multiple_pdfs\<close> starts: the batch directory is
  made and the archive is open.
\<close>

definition batch_start :: "'w env \<Rightarrow> 'w \<Rightarrow> 'w" where
  "batch_start env w =
     snd (zip_open env (batch_zip env w) (snd (os_makedirs env (batch_dir env w) w)))"

text \<open>
  The environment of the batch examples, and the state its first item leaves: the tool
  took a second, and the job directory holds the copy of the input, the output of the
  tool and the download file.
\<close>

definition batch_env :: "fs_world env" where
  "batch_env = fs_env (tool_checking (hello_json @ ascii ''\<newline>'')) viewer_failing"

definition paper_done :: fs_world where
  "paper_done =
     \<lparr>now = 1700000001,
      files = [(ascii ''/tmp/gradio/paper.pdf'', ascii ''%PDF-1.4 ...''),
               (ascii ''/tmp/gradio/notes.pdf'', ascii ''not a pdf''),
               (ascii ''olmocr_workspace/batch_1700000000/extracted_texts.zip'', []),
               (ascii ''olmocr_workspace/job_1700000000/input.pdf'', ascii ''%PDF-1.4 ...''),
               (ascii ''olmocr_workspace/job_1700000000/results/output_0.jsonl'',
                hello_json @ ascii ''\<newline>''),
               (ascii ''olmocr_workspace/job_1700000000/paper_extracted_text.txt'', ascii ''hello'')],
      dirs = [ascii ''olmocr_workspace/job_1700000000/results'',
              ascii ''olmocr_workspace/job_1700000000'',
              ascii ''olmocr_workspace/batch_1700000000'',
              ascii ''olmocr_workspace'']\<rparr>"

section \<open>The HTML preview adapter: properties\<close>

text \<open>
  How \<open>str_replace\<close> unfolds, that it does not shorten a string when the new text is not
  shorter than the old, and that it copies a stretch in which the old text cannot start.
\<close>

lemma str_replace_Nil: "old \<noteq> [] \<Longrightarrow> str_replace old new [] = []"
  by (simp add: str_replace.simps)

lemma str_replace_hit:
  "old \<noteq> [] \<Longrightarrow> prefix old s \<Longrightarrow>
   str_replace old new s = new @ str_replace old new (drop (length old) s)"
  by (subst str_replace.simps) auto

lemma str_replace_miss:
  "old \<noteq> [] \<Longrightarrow> \<not> prefix old (c # cs) \<Longrightarrow>
   str_replace old new (c # cs) = c # str_replace old new cs"
  by (subst str_replace.simps) simp

lemma length_str_replace:
  assumes "old \<noteq> []" and "length old \<le> length new"
  shows "length s \<le> length (str_replace old new s)"
proof (induction s rule: length_induct)
  case (1 s)
  show ?case
  proof (cases s)
    case Nil
    then show ?thesis by simp
  next
    case (Cons c cs)
    show ?thesis
    proof (cases "prefix old s")
      case True
      then obtain rest where s: "s = old @ rest"
        by (auto simp: prefix_def)
      with assms(1) have "length rest < length s" by simp
      with 1 have "length rest \<le> length (str_replace old new rest)" by blast
      with assms s True show ?thesis
        by (simp add: str_replace_hit)
    next
      case False
      from 1 Cons have "length cs \<le> length (str_replace old new cs)" by simp
      with False Cons assms(1) show ?thesis
        by (simp add: str_replace_miss)
    qed
  qed
qed

lemma str_replace_skip:
  assumes "old \<noteq> []" and "hd old \<notin> set u"
  shows "str_replace old new (u @ t) = u @ str_replace old new t"
  using assms(2)
proof (induction u)
  case Nil
  then show ?case by simp
next
  case (Cons c u)
  from Cons.prems assms(1) have "\<not> prefix old (c # u @ t)"
    by (cases old) auto
  with Cons assms(1) show ?case
    by (simp add: str_replace_miss)
qed

text \<open>
  An occurrence of \<open>b\<close> survives a replacement of \<open>old\<close> when \<open>b\<close> does not occur in \<open>old\<close> and
  cannot overlap an occurrence of \<open>old\<close> at either end. Replacing \<open>b\<close> by \<open>z @ b\<close> keeps an
  occurrence and adds the length of \<open>z\<close> at least once.
\<close>

lemma straddle_last:
  assumes "b = b1 @ b2" and "b1 \<noteq> []" and "b2 \<noteq> []" and "suffix b1 old"
  shows "last old \<in> set (butlast b)"
proof -
  from assms(4,2) have "last old = last b1"
    by (auto simp: suffix_def)
  moreover from assms(1,3) have "butlast b = b1 @ butlast b2"
    by (simp add: butlast_append)
  ultimately show ?thesis using assms(2) by simp
qed

lemma str_replace_keeps:
  assumes "old \<noteq> []" and "b \<noteq> []" and "\<not> sublist b old"
    and "last old \<notin> set (butlast b)" and "hd old \<notin> set (tl b)"
  shows "sublist b s \<Longrightarrow> sublist b (str_replace old new s)"
proof (induction s rule: length_induct)
  case (1 s)
  note IH = "1.IH" and sub = "1.prems"
  show ?case
  proof (cases "prefix old s")
    case True
    then obtain rest where s: "s = old @ rest"
      by (auto simp: prefix_def)
    from sub s have "sublist b rest"
    proof (simp only: sublist_append, elim disjE exE conjE)
      assume "sublist b old"
      with assms(3) show ?thesis by simp
    next
      assume "sublist b rest"
      then show ?thesis .
    next
      fix b1 b2
      assume b: "b = b1 @ b2" and suf: "suffix b1 old" and pre: "prefix b2 rest"
      show ?thesis
      proof (cases "b1 = []")
        case True
        with b pre show ?thesis by auto
      next
        case b1: False
        show ?thesis
        proof (cases "b2 = []")
          case True
          with b suf have "sublist b old" by auto
          with assms(3) show ?thesis by simp
        next
          case False
          from straddle_last [OF b b1 False suf] assms(4) show ?thesis by simp
        qed
      qed
    qed
    moreover from s assms(1) have "length rest < length s" by simp
    ultimately have "sublist b (str_replace old new rest)"
      using IH by blast
    then have "sublist b (new @ str_replace old new rest)"
      by (auto simp: sublist_append)
    with s True assms(1) show ?thesis
      by (simp add: str_replace_hit)
  next
    case False
    from sub assms(2) obtain c cs where s: "s = c # cs"
      by (cases s) auto
    from sub s have "prefix b (c # cs) \<or> sublist b cs"
      by (simp add: sublist_Cons_right)
    then show ?thesis
    proof
      assume "prefix b (c # cs)"
      with assms(2) obtain t where b: "b = c # tl b" and cs: "cs = tl b @ t"
        by (cases b) (auto simp: prefix_def)
      from assms(1,5) have "str_replace old new (tl b @ t) = tl b @ str_replace old new t"
        by (rule str_replace_skip)
      with s cs False assms(1) have "str_replace old new s = (c # tl b) @ str_replace old new t"
        by (simp add: str_replace_miss)
      with b have "str_replace old new s = b @ str_replace old new t" by simp
      then show ?thesis by simp
    next
      assume "sublist b cs"
      with IH s have "sublist b (str_replace old new cs)" by simp
      then have "sublist b (c # str_replace old new cs)"
        by (simp add: sublist_Cons_right)
      with s False assms(1) show ?thesis
        by (simp add: str_replace_miss)
    qed
  qed
qed

lemma str_replace_grows:
  assumes "b \<noteq> []"
  shows "sublist b s \<Longrightarrow>
         sublist b (str_replace b (z @ b) s) \<and> length s + length z \<le> length (str_replace b (z @ b) s)"
proof (induction s rule: length_induct)
  case (1 s)
  note IH = "1.IH" and sub = "1.prems"
  show ?case
  proof (cases "prefix b s")
    case True
    then obtain rest where s: "s = b @ rest"
      by (auto simp: prefix_def)
    have "length rest \<le> length (str_replace b (z @ b) rest)"
      using assms by (intro length_str_replace) simp_all
    with s True assms show ?thesis
      by (simp add: str_replace_hit)
  next
    case False
    from sub assms obtain c cs where s: "s = c # cs"
      by (cases s) auto
    from sub s False have "sublist b cs"
      by (simp add: sublist_Cons_right)
    with IH s have "sublist b (str_replace b (z @ b) cs) \<and>
                    length cs + length z \<le> length (str_replace b (z @ b) cs)" by simp
    with s False assms show ?thesis
      by (simp add: str_replace_miss sublist_Cons_right)
  qed
qed

text \<open>
  What a match of the regular expression looks like, and how \<open>re_sub_img\<close> unfolds: the
  substitution never shortens a string and keeps an occurrence of \<^verbatim>\<open></body>\<close>, which can
  only lie in the second group or after the match.
\<close>

lemma sublist_split_at:
  assumes "c \<notin> set b" and "sublist b (xs @ c # zs)"
  shows "sublist b xs \<or> sublist b zs"
proof -
  from assms(2) consider "sublist b xs" | "sublist b (c # zs)"
    | b1 b2 where "b = b1 @ b2" "suffix b1 xs" "prefix b2 (c # zs)"
    by (auto simp: sublist_append)
  then show ?thesis
  proof cases
    case 1
    then show ?thesis ..
  next
    case 2
    then have "prefix b (c # zs) \<or> sublist b zs"
      by (simp add: sublist_Cons_right)
    with assms(1) show ?thesis
      by (cases b) auto
  next
    case 3
    with assms(1) have "b2 = []"
      by (cases b2) auto
    with 3 show ?thesis by auto
  qed
qed

lemma match_style_shape:
  assumes "match_style s = Some (g2, r)"
  shows \<open>s = ascii ''style='' @ [0x22] @ g2 @ [0x22] @ r \<and> 0x22 \<notin> set g2\<close>
proof -
  let ?t = "drop 7 s"
  let ?g = "takeWhile (\<lambda>c. c \<noteq> 0x22) ?t"
  from assms have pre: \<open>prefix (ascii ''style="'') s\<close>
    and len: "length ?g < length ?t" and g2: "g2 = ?g" and r: "r = drop (Suc (length ?g)) ?t"
    by (auto simp: match_style_def Let_def split: if_splits)
  from pre have s: \<open>s = ascii ''style="'' @ ?t\<close>
    by (auto simp: prefix_def ascii_def)
  have "?t = ?g @ dropWhile (\<lambda>c. c \<noteq> 0x22) ?t" by simp
  moreover from len have "dropWhile (\<lambda>c. c \<noteq> 0x22) ?t \<noteq> []"
    by (metis append_Nil2 calculation less_irrefl)
  then have "dropWhile (\<lambda>c. c \<noteq> 0x22) ?t = 0x22 # tl (dropWhile (\<lambda>c. c \<noteq> 0x22) ?t)"
    using hd_dropWhile [of "\<lambda>c. c \<noteq> 0x22" ?t] by (cases "dropWhile (\<lambda>c. c \<noteq> 0x22) ?t") auto
  ultimately have t: "?t = ?g @ 0x22 # tl (dropWhile (\<lambda>c. c \<noteq> 0x22) ?t)" by simp
  then have "drop (Suc (length ?g)) ?t = tl (dropWhile (\<lambda>c. c \<noteq> 0x22) ?t)"
    by (metis append.assoc append_Cons append_Nil append_eq_conv_conj length_append_singleton)
  with t r g2 have "?t = g2 @ [0x22] @ r" by simp
  with s have \<open>s = ascii ''style="'' @ g2 @ [0x22] @ r\<close> by simp
  moreover have "0x22 \<notin> set g2"
    unfolding g2 by (auto dest: set_takeWhileD)
  ultimately show ?thesis by (simp add: ascii_def)
qed

lemma match_attrs_shape:
  assumes "match_attrs s = Some (g1, g2, r)"
  shows \<open>s = g1 @ ascii ''style='' @ [0x22] @ g2 @ [0x22] @ r \<and> 0x3E \<notin> set g1 \<and> 0x22 \<notin> set g2\<close>
  using assms
proof (induction s arbitrary: g1 g2 r)
  case Nil
  then show ?case by simp
next
  case (Cons c cs)
  from Cons.prems have c: "c \<noteq> 0x3E"
    by (auto split: if_splits)
  show ?case
  proof (cases "match_attrs cs")
    case None
    with Cons.prems c have "match_style (c # cs) = Some (g2, r)" and "g1 = []"
      by (auto split: option.splits)
    with match_style_shape [of "c # cs" g2 r] show ?thesis by simp
  next
    case (Some m)
    obtain h1 h2 r' where m: "m = (h1, h2, r')" by (cases m)
    with Some Cons.prems c have "g1 = c # h1" "h2 = g2" "r' = r" by auto
    with Some m Cons.IH [of h1 g2 r] c show ?thesis by auto
  qed
qed

lemma match_img_shape:
  assumes "match_img s = Some (g1, g2, r)"
  shows \<open>s = ascii ''<img'' @ g1 @ ascii ''style='' @ [0x22] @ g2 @ [0x22] @ r \<and>
         0x3E \<notin> set g1 \<and> 0x22 \<notin> set g2\<close>
proof -
  from assms have pre: "prefix (ascii ''<img'') s" and m: "match_attrs (drop 4 s) = Some (g1, g2, r)"
    by (auto simp: match_img_def split: if_splits)
  from pre have "s = ascii ''<img'' @ drop 4 s"
    by (auto simp: prefix_def ascii_def)
  with match_attrs_shape [OF m] show ?thesis by simp
qed

lemma re_sub_img_match:
  assumes "match_img s = Some (g1, g2, r)"
  shows \<open>re_sub_img s =
           ascii ''<img'' @ g1 @ ascii ''style="max-width: 100%; height: auto; '' @ g2 @
           ascii ''"'' @ re_sub_img r\<close>
  using assms by (subst re_sub_img.simps) simp

lemma re_sub_img_no_match:
  assumes "match_img (c # cs) = None"
  shows "re_sub_img (c # cs) = c # re_sub_img cs"
  using assms by (subst re_sub_img.simps) simp

lemma length_re_sub_img: "length s \<le> length (re_sub_img s)"
proof (induction s rule: length_induct)
  case (1 s)
  show ?case
  proof (cases "match_img s")
    case None
    show ?thesis
    proof (cases s)
      case Nil
      then show ?thesis by simp
    next
      case (Cons c cs)
      with 1 have "length cs \<le> length (re_sub_img cs)" by simp
      with None Cons show ?thesis by (simp add: re_sub_img_no_match)
    qed
  next
    case (Some m)
    obtain g1 g2 r where m: "m = (g1, g2, r)" by (cases m)
    with Some have match: "match_img s = Some (g1, g2, r)" by simp
    from match_img_shape [OF match]
    have s: \<open>s = ascii ''<img'' @ g1 @ ascii ''style='' @ [0x22] @ g2 @ [0x22] @ r\<close> by simp
    then have "length s = length g1 + length g2 + length r + 12"
      by (simp add: ascii_def)
    moreover from this 1 have "length r \<le> length (re_sub_img r)" by simp
    ultimately show ?thesis
      by (simp add: re_sub_img_match [OF match] ascii_def)
  qed
qed

lemma re_sub_img_other: "c \<noteq> 0x3C \<Longrightarrow> re_sub_img (c # s) = c # re_sub_img s"
  by (rule re_sub_img_no_match) (simp add: match_img_def ascii_def)

lemma re_sub_img_body:
  "re_sub_img (ascii ''</body>'' @ t) = ascii ''</body>'' @ re_sub_img t"
proof -
  have "match_img (0x3C # 0x2F # ascii ''body>'' @ t) = None"
    by (simp add: match_img_def ascii_def)
  then have "re_sub_img (0x3C # 0x2F # ascii ''body>'' @ t) =
               0x3C # re_sub_img (0x2F # ascii ''body>'' @ t)"
    by (rule re_sub_img_no_match)
  then show ?thesis
    by (simp add: ascii_def re_sub_img_other)
qed

lemma re_sub_img_keeps:
  "sublist (ascii ''</body>'') s \<Longrightarrow> sublist (ascii ''</body>'') (re_sub_img s)"
proof (induction s rule: length_induct)
  case (1 s)
  note IH = "1.IH" and sub = "1.prems"
  let ?b = "ascii ''</body>''"
  show ?case
  proof (cases "match_img s")
    case None
    from sub obtain c cs where s: "s = c # cs"
      by (cases s) (auto simp: ascii_def)
    from sub s have "prefix ?b (c # cs) \<or> sublist ?b cs"
      by (simp add: sublist_Cons_right)
    then show ?thesis
    proof
      assume "prefix ?b (c # cs)"
      then obtain t where "s = ?b @ t"
        using s by (auto simp: prefix_def)
      then show ?thesis
        by (simp add: re_sub_img_body)
    next
      assume "sublist ?b cs"
      with IH s have "sublist ?b (re_sub_img cs)" by simp
      with None s show ?thesis
        by (simp add: re_sub_img_no_match sublist_Cons_right)
    qed
  next
    case (Some m)
    obtain g1 g2 r where m: "m = (g1, g2, r)" by (cases m)
    with Some have match: "match_img s = Some (g1, g2, r)" by simp
    from match_img_shape [OF match]
    have s: \<open>s = (ascii ''<img'' @ g1 @ ascii ''style='') @ 0x22 # (g2 @ 0x22 # r)\<close>
      and g1: "0x3E \<notin> set g1"
      by simp_all
    have quote: "0x22 \<notin> set ?b" by (simp add: ascii_def)
    have "\<not> sublist ?b (ascii ''<img'' @ g1 @ ascii ''style='')"
    proof
      assume "sublist ?b (ascii ''<img'' @ g1 @ ascii ''style='')"
      then have "set ?b \<subseteq> set (ascii ''<img'' @ g1 @ ascii ''style='')"
        by (rule set_mono_sublist)
      moreover have "0x3E \<in> set ?b" by (simp add: ascii_def)
      ultimately show False using g1 by (auto simp: ascii_def)
    qed
    with sublist_split_at [OF quote, of "ascii ''<img'' @ g1 @ ascii ''style=''" "g2 @ 0x22 # r"] sub s
    have "sublist ?b (g2 @ 0x22 # r)" by auto
    from sublist_split_at [OF quote this] have "sublist ?b g2 \<or> sublist ?b r" .
    moreover from s have "length r < length s" by simp
    ultimately have "sublist ?b g2 \<or> sublist ?b (re_sub_img r)"
      using IH by blast
    then have \<open>sublist ?b (g2 @ ascii ''"'' @ re_sub_img r)\<close>
      by (auto simp: sublist_append)
    then have \<open>sublist ?b ((ascii ''<img'' @ g1 @ ascii ''style="max-width: 100%; height: auto; '') @
                           (g2 @ ascii ''"'' @ re_sub_img r))\<close>
      by (simp only: sublist_append) simp
    then show ?thesis
      by (simp add: re_sub_img_match [OF match])
  qed
qed

text \<open>
  All seven steps together: when \<^verbatim>\<open></body>\<close> occurs in the input it occurs in the result,
  which is longer by the zoom controls at least.
\<close>

lemma div_replace_keeps:
  assumes "old \<noteq> []" and "0x2F \<notin> set old" and "hd old = 0x3C" and "last old = 0x3E"
    and "sublist (ascii ''</body>'') s"
  shows "sublist (ascii ''</body>'') (str_replace old new s)"
proof (rule str_replace_keeps [OF assms(1) _ _ _ _ assms(5)])
  show "ascii ''</body>'' \<noteq> []" by (simp add: ascii_def)
  show "\<not> sublist (ascii ''</body>'') old"
  proof
    assume "sublist (ascii ''</body>'') old"
    then have "set (ascii ''</body>'') \<subseteq> set old" by (rule set_mono_sublist)
    with assms(2) show False by (auto simp: ascii_def)
  qed
  show "last old \<notin> set (butlast (ascii ''</body>''))"
    using assms(4) by (simp add: ascii_def)
  show "hd old \<notin> set (tl (ascii ''</body>''))"
    using assms(3) by (simp add: ascii_def)
qed

lemma modify_html_keeps_and_grows:
  assumes "sublist (ascii ''</body>'') html"
  shows "sublist (ascii ''</body>'') (modify_html_for_better_display html) \<and>
         length html + length zoom_controls \<le> length (modify_html_for_better_display html)"
proof -
  let ?b = "ascii ''</body>''"
  define h1 where \<open>h1 = str_replace (ascii ''<div class="container">'')
              (ascii ''<div class="container" style="max-width: 100%; width: 100%;">'') html\<close>
  define h2 where \<open>h2 = str_replace (ascii ''<style>'')
              (ascii ''<style>\<newline>'' @
               ascii ''body {font-size: 16px;}\<newline>'' @
               ascii ''.text-content {font-size: 16px; line-height: 1.5;}\<newline>'') h1\<close>
  define h3 where \<open>h3 = str_replace (ascii ''<div class="row">'')
              (ascii ''<div class="row" style="display: flex; flex-wrap: wrap;">'') h2\<close>
  define h4 where \<open>h4 = str_replace (ascii ''<div class="col-md-6">'')
              (ascii ''<div class="col-md-6" style="flex: 0 0 50%; max-width: 50%; padding: 15px;">'') h3\<close>
  define h5 where \<open>h5 = str_replace (ascii ''<div class="page">'')
              (ascii ''<div class="page" style="margin-bottom: 30px; border-bottom: 1px solid #ccc; padding-bottom: 20px;">'') h4\<close>
  define h6 where "h6 = re_sub_img h5"
  from assms have "html \<noteq> []" by (auto simp: ascii_def)
  then have result: "modify_html_for_better_display html = str_replace ?b (zoom_controls @ ?b) h6"
    by (simp add: modify_html_for_better_display_def Let_def h1_def h2_def h3_def h4_def h5_def h6_def)
  have k1: "sublist ?b h1" unfolding h1_def
    by (rule div_replace_keeps [OF _ _ _ _ assms]) (simp_all add: ascii_def)
  have k2: "sublist ?b h2" unfolding h2_def
    by (rule div_replace_keeps [OF _ _ _ _ k1]) (simp_all add: ascii_def)
  have k3: "sublist ?b h3" unfolding h3_def
    by (rule div_replace_keeps [OF _ _ _ _ k2]) (simp_all add: ascii_def)
  have k4: "sublist ?b h4" unfolding h4_def
    by (rule div_replace_keeps [OF _ _ _ _ k3]) (simp_all add: ascii_def)
  have k5: "sublist ?b h5" unfolding h5_def
    by (rule div_replace_keeps [OF _ _ _ _ k4]) (simp_all add: ascii_def)
  have k6: "sublist ?b h6" unfolding h6_def
    by (rule re_sub_img_keeps [OF k5])
  have l1: "length html \<le> length h1" unfolding h1_def
    by (rule length_str_replace) (simp_all add: ascii_def)
  have l2: "length h1 \<le> length h2" unfolding h2_def
    by (rule length_str_replace) (simp_all add: ascii_def)
  have l3: "length h2 \<le> length h3" unfolding h3_def
    by (rule length_str_replace) (simp_all add: ascii_def)
  have l4: "length h3 \<le> length h4" unfolding h4_def
    by (rule length_str_replace) (simp_all add: ascii_def)
  have l5: "length h4 \<le> length h5" unfolding h5_def
    by (rule length_str_replace) (simp_all add: ascii_def)
  have l6: "length h5 \<le> length h6" unfolding h6_def
    by (rule length_re_sub_img)
  have "?b \<noteq> []" by (simp add: ascii_def)
  from str_replace_grows [OF this k6, of zoom_controls]
  have "sublist ?b (str_replace ?b (zoom_controls @ ?b) h6)"
    and "length h6 + length zoom_controls \<le> length (str_replace ?b (zoom_controls @ ?b) h6)"
    by simp_all
  with l1 l2 l3 l4 l5 l6 result show ?thesis by simp
qed

lemma zoom_controls_not_empty: "zoom_controls \<noteq> []"
  by (simp add: zoom_controls_def ascii_def)

text \<open>
  C8. The adapter is not idempotent: for every input in which \<^verbatim>\<open></body>\<close> occurs, applying
  it twice gives a result other than applying it once, longer by the zoom controls at
  least, which the second application injects again.
\<close>

theorem modify_html_not_idempotent:
  assumes "sublist (ascii ''</body>'') html"
  shows "modify_html_for_better_display (modify_html_for_better_display html) \<noteq>
           modify_html_for_better_display html \<and>
         length (modify_html_for_better_display html) + length zoom_controls \<le>
           length (modify_html_for_better_display (modify_html_for_better_display html))"
proof -
  from modify_html_keeps_and_grows [OF assms]
  have "sublist (ascii ''</body>'') (modify_html_for_better_display html)" by simp
  from modify_html_keeps_and_grows [OF this]
  have grows: "length (modify_html_for_better_display html) + length zoom_controls \<le>
           length (modify_html_for_better_display (modify_html_for_better_display html))"
    by simp
  moreover have "0 < length zoom_controls"
    using zoom_controls_not_empty by simp
  ultimately have "length (modify_html_for_better_display html) <
           length (modify_html_for_better_display (modify_html_for_better_display html))"
    by linarith
  then have "modify_html_for_better_display (modify_html_for_better_display html) \<noteq>
           modify_html_for_better_display html"
    by auto
  with grows show ?thesis by simp
qed

theorem modify_html_not_idempotent_witness:
  "sublist (ascii ''</body>'') (ascii ''<html><body><p>hello</p></body></html>'') \<and>
   modify_html_for_better_display
     (modify_html_for_better_display (ascii ''<html><body><p>hello</p></body></html>'')) \<noteq>
   modify_html_for_better_display (ascii ''<html><body><p>hello</p></body></html>'')"
proof -
  have "ascii ''<html><body><p>hello</p></body></html>'' =
          ascii ''<html><body><p>hello</p>'' @ ascii ''</body>'' @ ascii ''</html>''"
    by (simp add: ascii_def)
  then have here: "sublist (ascii ''</body>'') (ascii ''<html><body><p>hello</p></body></html>'')"
    by (simp only: sublist_appendI)
  from modify_html_not_idempotent [OF here] here show ?thesis by simp
qed



section \<open>The single-file handler: properties\<close>

text \<open>
  Once the job directory is made and the input copied, \<open>process_pdf\<close> returns what the
  \<open>try\<close> block returns, or the message of the handler that catches its exception.
\<close>

lemma process_pdf_staged:
  assumes "os_makedirs env (job_dir env w) w = (None, w1)"
    and "shutil_copy env pdf_file (path_join (job_dir env w) (ascii ''input.pdf'')) w1 = (None, w2)"
  shows "process_pdf env (Some pdf_file) w =
           (case process_pdf_try env (job_dir env w) (path_join (job_dir env w) (ascii ''input.pdf''))
                   (fst (splitext (basename pdf_file))) w2 of
              (Inr out, w3) \<Rightarrow> (Inr out, w3)
            | (Inl (CalledProcessError m err), w3) \<Rightarrow>
                (Inr (msg_command_failed @ fmt_opt err, [], None, None, None), w3)
            | (Inl (Exception msg), w3) \<Rightarrow>
                (Inr (msg_processing_error @ msg, [], None, None, None), w3))"
  using assms by (simp add: process_pdf_def job_dir_def Let_def)

lemma process_pdf_try_nonzero:
  assumes "run_piped env (pipeline_cmd work_dir) w = (Inr (returncode, out, err), w')"
    and "returncode \<noteq> 0"
  shows "process_pdf_try env work_dir (path_join work_dir (ascii ''input.pdf'')) stem w =
           (Inl (CalledProcessError (cpe_str env (pipeline_cmd work_dir) returncode) (Some err)), w')"
  using assms by (simp add: process_pdf_try_def subprocess_run_piped_def pipeline_cmd_def)

lemma process_pdf_try_zero:
  assumes "run_piped env (pipeline_cmd work_dir) w = (Inr (0, out, err), w')"
  shows "process_pdf_try env work_dir (path_join work_dir (ascii ''input.pdf'')) stem w =
          (let results_dir = path_join work_dir (ascii ''results'') in
          if \<not> path_exists env results_dir w'
          then (Inr (msg_no_results_dir @ out, [], None, None, None), w')
          else
            (case path_glob env results_dir (ascii ''output_*.jsonl'') w' of
               Inl e \<Rightarrow> (Inl e, w')
             | Inr [] \<Rightarrow> (Inr (msg_no_output_file @ out, [], None, None, None), w')
             | Inr (output_file # _) \<Rightarrow>
                 (case read_text env output_file None w' of
                    Inl e \<Rightarrow> (Inl e, w')
                  | Inr raw \<Rightarrow>
                      let content = strip raw in
                      if content = []
                      then (Inr (msg_output_empty @ out, [], None, None, None), w')
                      else process_pdf_output env work_dir stem output_file
                             out content w')))"
  using assms by (simp add: process_pdf_try_def subprocess_run_piped_def pipeline_cmd_def)

text \<open>How the examples evaluate the environment in memory.\<close>

lemmas fs_defs = fs_env_def job_dir_def fs_makedirs_def fs_copy_def fs_exists_def fs_glob_def
  fs_read_def fs_open_w_def fs_write_def put_file_def world0_def path_join_def WORKSPACE_DIR_def
  ascii_def str_int_def str_nat.simps pipeline_cmd_def viewer_cmd_def tool_failing_def
  tool_idle_def tool_writing_def tool_checking_def viewer_writing_def viewer_failing_def
  prod_eq_iff Let_def suffix_def

text \<open>
  C10. Called with \<open>None\<close> as the input file, \<open>process_pdf\<close> returns the prompt to upload a
  PDF file, the empty text and \<open>None\<close> in the three other places, and leaves the state of
  the world as it was: in every environment, so no directory is made, no file copied and
  no process run.
\<close>

theorem process_pdf_without_file:
  "process_pdf env None w = (Inr (msg_upload_pdf, [], None, None, None), w)"
  by (simp add: process_pdf_def)

text \<open>
  C3. When the job directory is made, the input copied and the extraction process then
  ends with a status other than 0, \<open>process_pdf\<close> returns the message "command execution
  failed:" followed by the captured error output, which the message so contains; the
  text is empty and the preview, the table and the download file are \<open>None\<close>.
\<close>

theorem process_pdf_tool_failure:
  assumes "os_makedirs env (job_dir env w) w = (None, w1)"
    and "shutil_copy env pdf_file (path_join (job_dir env w) (ascii ''input.pdf'')) w1 = (None, w2)"
    and "run_piped env (pipeline_cmd (job_dir env w)) w2 = (Inr (returncode, out, err), w3)"
    and "returncode \<noteq> 0"
  shows "process_pdf env (Some pdf_file) w =
           (Inr (msg_command_failed @ err, [], None, None, None), w3) \<and>
         sublist err (msg_command_failed @ err)"
  using assms
  by (simp add: process_pdf_staged process_pdf_try_nonzero fmt_opt_def)

theorem process_pdf_tool_failure_witness:
  "fst (process_pdf (fs_env tool_failing viewer_failing) (Some (ascii ''/tmp/gradio/paper.pdf'')) world0) =
     Inr (msg_command_failed @ ascii ''RuntimeError: no GPU found'', [], None, None, None) \<and>
   sublist (ascii ''RuntimeError: no GPU found'')
     (msg_command_failed @ ascii ''RuntimeError: no GPU found'')"
proof -
  let ?env = "fs_env tool_failing viewer_failing"
  let ?pdf = "ascii ''/tmp/gradio/paper.pdf''"
  let ?w1 = "snd (os_makedirs ?env (job_dir ?env world0) world0)"
  let ?w2 = "snd (shutil_copy ?env ?pdf (path_join (job_dir ?env world0) (ascii ''input.pdf'')) ?w1)"
  have made: "os_makedirs ?env (job_dir ?env world0) world0 = (None, ?w1)"
    by (simp add: fs_defs)
  have copied: "shutil_copy ?env ?pdf (path_join (job_dir ?env world0) (ascii ''input.pdf'')) ?w1 = (None, ?w2)"
    by (simp add: fs_defs)
  have ran: "run_piped ?env (pipeline_cmd (job_dir ?env world0)) ?w2 =
               (Inr (1, [], ascii ''RuntimeError: no GPU found''), ?w2)"
    by (simp add: fs_env_def tool_failing_def)
  from process_pdf_tool_failure [OF made copied ran] show ?thesis
    by simp
qed

text \<open>
  C4. When the extraction process ends with status 0 and the job directory then has no
  \<open>results\<close> entry, \<open>process_pdf\<close> returns a message that contains the words "no results
  directory was produced" (the seven characters of the source), followed by the captured
  output; the text is empty and the three other results are \<open>None\<close>.
\<close>

theorem process_pdf_no_results_dir:
  assumes "os_makedirs env (job_dir env w) w = (None, w1)"
    and "shutil_copy env pdf_file (path_join (job_dir env w) (ascii ''input.pdf'')) w1 = (None, w2)"
    and "run_piped env (pipeline_cmd (job_dir env w)) w2 = (Inr (0, out, err), w3)"
    and "\<not> path_exists env (path_join (job_dir env w) (ascii ''results'')) w3"
  shows "process_pdf env (Some pdf_file) w =
           (Inr (msg_no_results_dir @ out, [], None, None, None), w3) \<and>
         sublist [0x672A, 0x751F, 0x6210, 0x7ED3, 0x679C, 0x76EE, 0x5F55] (msg_no_results_dir @ out)"
proof -
  have "msg_no_results_dir @ out =
          [0x5904, 0x7406, 0x5B8C, 0x6210, 0xFF0C, 0x4F46] @
          [0x672A, 0x751F, 0x6210, 0x7ED3, 0x679C, 0x76EE, 0x5F55] @
          (ascii ''\<newline>\<newline>'' @ [0x65E5, 0x5FD7, 0x8F93, 0x51FA] @ ascii '':\<newline>'' @ out)"
    by (simp add: msg_no_results_dir_def)
  then have "sublist [0x672A, 0x751F, 0x6210, 0x7ED3, 0x679C, 0x76EE, 0x5F55] (msg_no_results_dir @ out)"
    by (simp only: sublist_appendI)
  with assms show ?thesis
    by (simp add: process_pdf_staged process_pdf_try_zero)
qed

theorem process_pdf_no_results_dir_witness:
  "fst (process_pdf (fs_env tool_idle viewer_failing) (Some (ascii ''/tmp/gradio/paper.pdf'')) world0) =
     Inr (msg_no_results_dir @ ascii ''done'', [], None, None, None) \<and>
   sublist [0x672A, 0x751F, 0x6210, 0x7ED3, 0x679C, 0x76EE, 0x5F55]
     (msg_no_results_dir @ ascii ''done'')"
proof -
  let ?env = "fs_env tool_idle viewer_failing"
  let ?pdf = "ascii ''/tmp/gradio/paper.pdf''"
  let ?w1 = "snd (os_makedirs ?env (job_dir ?env world0) world0)"
  let ?w2 = "snd (shutil_copy ?env ?pdf (path_join (job_dir ?env world0) (ascii ''input.pdf'')) ?w1)"
  have made: "os_makedirs ?env (job_dir ?env world0) world0 = (None, ?w1)"
    by (simp add: fs_defs)
  have copied: "shutil_copy ?env ?pdf (path_join (job_dir ?env world0) (ascii ''input.pdf'')) ?w1 = (None, ?w2)"
    by (simp add: fs_defs)
  have ran: "run_piped ?env (pipeline_cmd (job_dir ?env world0)) ?w2 = (Inr (0, ascii ''done'', []), ?w2)"
    by (simp add: fs_env_def tool_idle_def)
  have absent: "\<not> path_exists ?env (path_join (job_dir ?env world0) (ascii ''results'')) ?w2"
    by (simp add: fs_defs)
  from process_pdf_no_results_dir [OF made copied ran absent] show ?thesis
    by simp
qed

text \<open>
  C5. When the first output file that matches is read and its text is empty after
  \<open>strip\<close>, \<open>process_pdf\<close> returns a message that starts with "the output file is empty",
  followed by the captured output; the text is empty and the three other results are
  \<open>None\<close>.
\<close>

theorem process_pdf_blank_output:
  assumes "os_makedirs env (job_dir env w) w = (None, w1)"
    and "shutil_copy env pdf_file (path_join (job_dir env w) (ascii ''input.pdf'')) w1 = (None, w2)"
    and "run_piped env (pipeline_cmd (job_dir env w)) w2 = (Inr (0, out, err), w3)"
    and "path_exists env (path_join (job_dir env w) (ascii ''results'')) w3"
    and "path_glob env (path_join (job_dir env w) (ascii ''results'')) (ascii ''output_*.jsonl'') w3 =
           Inr (output_file # others)"
    and "read_text env output_file None w3 = Inr raw"
    and "strip raw = []"
  shows "process_pdf env (Some pdf_file) w =
           (Inr (msg_output_empty @ out, [], None, None, None), w3) \<and>
         prefix [0x8F93, 0x51FA, 0x6587, 0x4EF6, 0x4E3A, 0x7A7A] (msg_output_empty @ out)"
  using assms
  by (simp add: process_pdf_staged process_pdf_try_zero msg_output_empty_def)

theorem process_pdf_blank_output_witness:
  "fst (process_pdf (fs_env (tool_writing (ascii ''\<newline>'')) viewer_failing)
          (Some (ascii ''/tmp/gradio/paper.pdf'')) world0) =
     Inr (msg_output_empty @ ascii ''done'', [], None, None, None) \<and>
   prefix [0x8F93, 0x51FA, 0x6587, 0x4EF6, 0x4E3A, 0x7A7A] (msg_output_empty @ ascii ''done'')"
proof -
  let ?env = "fs_env (tool_writing (ascii ''\<newline>'')) viewer_failing"
  let ?pdf = "ascii ''/tmp/gradio/paper.pdf''"
  let ?w1 = "snd (os_makedirs ?env (job_dir ?env world0) world0)"
  let ?w2 = "snd (shutil_copy ?env ?pdf (path_join (job_dir ?env world0) (ascii ''input.pdf'')) ?w1)"
  let ?w3 = "snd (run_piped ?env (pipeline_cmd (job_dir ?env world0)) ?w2)"
  let ?out = "ascii ''olmocr_workspace/job_1700000000/results/output_0.jsonl''"
  have made: "os_makedirs ?env (job_dir ?env world0) world0 = (None, ?w1)"
    by (simp add: fs_defs)
  have copied: "shutil_copy ?env ?pdf (path_join (job_dir ?env world0) (ascii ''input.pdf'')) ?w1 = (None, ?w2)"
    by (simp add: fs_defs)
  have ran: "run_piped ?env (pipeline_cmd (job_dir ?env world0)) ?w2 = (Inr (0, ascii ''done'', []), ?w3)"
    by (simp add: fs_defs)
  have present: "path_exists ?env (path_join (job_dir ?env world0) (ascii ''results'')) ?w3"
    by (simp add: fs_defs)
  have listed: "path_glob ?env (path_join (job_dir ?env world0) (ascii ''results''))
                  (ascii ''output_*.jsonl'') ?w3 = Inr (?out # [])"
    by (simp add: fs_defs)
  have read: "read_text ?env ?out None ?w3 = Inr (ascii ''\<newline>'')"
    by (simp add: fs_defs)
  have blank: "strip (ascii ''\<newline>'') = []"
    by (simp add: strip_def isspace_def ascii_def)
  from process_pdf_blank_output [OF made copied ran present listed read blank] show ?thesis
    by simp
qed

text \<open>
  The run that reaches the end of the \<open>try\<close> block: the output file parses to a
  dictionary whose text is a string and whose metadata is a dictionary, the listing of
  the preview directory does not raise and the download file is written. Whatever the
  preview tool did, the five results are returned.
\<close>

lemma subprocess_run_plain_world:
  assumes "run_plain env cmd w = (r, w1)"
  shows "\<exists>r'. subprocess_run_plain env cmd w = (r', w1)"
  using assms by (cases r) (simp_all add: subprocess_run_plain_def)

lemma process_pdf_output_done:
  assumes "json_loads env content = Inr (PDict kvs)"
    and "dict_get kvs (ascii ''text'') (PStr text_not_found) = PStr s"
    and "dict_get kvs (ascii ''metadata'') (PDict []) = PDict items"
    and "run_plain env (viewer_cmd output_file) w = (r, w1)"
    and "path_glob env (ascii ''dolma_previews'') (ascii ''*.html'') w1 = Inr html_files"
    and "open_w env (path_join work_dir (stem @ ascii ''_extracted_text.txt'')) (ascii ''utf-8'') w1 = (None, w2)"
    and "file_write env (path_join work_dir (stem @ ascii ''_extracted_text.txt'')) s w2 = (None, w3)"
  shows "\<exists>log html.
           process_pdf_output env work_dir stem output_file log_text content w =
             (Inr (log, s, Some html,
                   Some \<lparr>df_rows = map (\<lambda>(key, val). [PStr key, val]) items,
                         df_columns = [col_attribute, col_value]\<rparr>,
                   Some (path_join work_dir (stem @ ascii ''_extracted_text.txt''))), w3)"
proof -
  obtain r' where viewer:
    "subprocess_run_plain env
       [ascii ''python'', ascii ''-m'', ascii ''olmocr.viewer.dolmaviewer'', output_file] w = (r', w1)"
    using assms(4) subprocess_run_plain_world [of env "viewer_cmd output_file" w r w1]
    by (auto simp: viewer_cmd_def)
  show ?thesis
    using assms(1-3,5-7) viewer
    by (simp add: process_pdf_output_def py_get_def py_items_def Let_def
          split: list.split sum.split prod.split)
qed

lemma process_pdf_parsed:
  assumes "os_makedirs env (job_dir env w) w = (None, w1)"
    and "shutil_copy env pdf_file (path_join (job_dir env w) (ascii ''input.pdf'')) w1 = (None, w2)"
    and "run_piped env (pipeline_cmd (job_dir env w)) w2 = (Inr (0, out, err), w3)"
    and "path_exists env (path_join (job_dir env w) (ascii ''results'')) w3"
    and "path_glob env (path_join (job_dir env w) (ascii ''results'')) (ascii ''output_*.jsonl'') w3 =
           Inr (output_file # others)"
    and "read_text env output_file None w3 = Inr raw"
    and "strip raw \<noteq> []"
    and "json_loads env (strip raw) = Inr (PDict kvs)"
    and "dict_get kvs (ascii ''text'') (PStr text_not_found) = PStr s"
    and "dict_get kvs (ascii ''metadata'') (PDict []) = PDict items"
    and "run_plain env (viewer_cmd output_file) w3 = (r, w4)"
    and "path_glob env (ascii ''dolma_previews'') (ascii ''*.html'') w4 = Inr html_files"
    and "open_w env (path_join (job_dir env w) (text_filename pdf_file)) (ascii ''utf-8'') w4 = (None, w5)"
    and "file_write env (path_join (job_dir env w) (text_filename pdf_file)) s w5 = (None, w6)"
  shows "\<exists>log html.
           process_pdf env (Some pdf_file) w =
             (Inr (log, s, Some html,
                   Some \<lparr>df_rows = map (\<lambda>(key, val). [PStr key, val]) items,
                         df_columns = [col_attribute, col_value]\<rparr>,
                   Some (path_join (job_dir env w) (text_filename pdf_file))), w6)"
proof -
  from process_pdf_output_done [OF assms(8-12), of "job_dir env w" "fst (splitext (basename pdf_file))" w5 w6 out]
    assms(13,14)
  obtain log html where
    "process_pdf_output env (job_dir env w) (fst (splitext (basename pdf_file))) output_file out
       (strip raw) w3 =
       (Inr (log, s, Some html,
             Some \<lparr>df_rows = map (\<lambda>(key, val). [PStr key, val]) items,
                   df_columns = [col_attribute, col_value]\<rparr>,
             Some (path_join (job_dir env w) (text_filename pdf_file))), w6)"
    by (auto simp: text_filename_def)
  with assms(1-7) show ?thesis
    by (simp add: process_pdf_staged process_pdf_try_zero)
qed

lemmas name_defs = text_filename_def basename_def splitext_def rfind_def





section \<open>The batch handler: properties\<close>

text \<open>
  C7. For \<open>None\<close> and for the empty list, \<open>process_multiple_pdfs\<close> returns the prompt to
  upload a PDF file and \<open>None\<close> as the archive path; no archive is opened and the state of
  the world is as it was, so no batch directory is made.
\<close>

theorem process_multiple_pdfs_without_files:
  "process_multiple_pdfs env None w = (Inr (msg_upload_pdf, None), None, w) \<and>
   process_multiple_pdfs env (Some []) w = (Inr (msg_upload_pdf, None), None, w)"
  by (simp add: process_multiple_pdfs_def)

text \<open>
  An exception leaves \<open>process_pdf\<close> only from the two steps before its \<open>try\<close> block.
\<close>

lemma process_pdf_raises:
  assumes "process_pdf env pdf_file w = (Inl e, w')"
  shows "raised_outside_try env e"
proof (cases pdf_file)
  case None
  with assms show ?thesis by (simp add: process_pdf_def)
next
  case (Some p)
  show ?thesis
  proof (cases "os_makedirs env (job_dir env w) w")
    case made: (Pair m w1)
    show ?thesis
    proof (cases m)
      case (Some e1)
      with assms \<open>pdf_file = Some p\<close> made have "e1 = e"
        by (simp add: process_pdf_def job_dir_def Let_def)
      with made Some have "fst (os_makedirs env (job_dir env w) w) = Some e" by simp
      then show ?thesis unfolding raised_outside_try_def by blast
    next
      case None
      show ?thesis
      proof (cases "shutil_copy env p (path_join (job_dir env w) (ascii ''input.pdf'')) w1")
        case copied: (Pair c w2)
        show ?thesis
        proof (cases c)
          case (Some e2)
          with assms \<open>pdf_file = Some p\<close> made None copied have "e2 = e"
            by (simp add: process_pdf_def job_dir_def Let_def)
          with copied Some
          have "fst (shutil_copy env p (path_join (job_dir env w) (ascii ''input.pdf'')) w1) = Some e"
            by simp
          then show ?thesis unfolding raised_outside_try_def by blast
        next
          case c_None: None
          from process_pdf_staged [of env w w1 p w2] made None copied c_None assms \<open>pdf_file = Some p\<close>
          show ?thesis
            by (auto split: prod.splits sum.splits exn.splits)
        qed
      qed
    qed
  qed
qed

lemma process_pdf_copy_raises:
  assumes "os_makedirs env (job_dir env w) w = (None, w1)"
    and "shutil_copy env pdf_file (path_join (job_dir env w) (ascii ''input.pdf'')) w1 = (Some e, w2)"
  shows "process_pdf env (Some pdf_file) w = (Inl e, w2)"
  using assms by (simp add: process_pdf_def job_dir_def Let_def)

lemma process_pdf_nonzero:
  assumes "os_makedirs env (job_dir env w) w = (None, w1)"
    and "shutil_copy env pdf_file (path_join (job_dir env w) (ascii ''input.pdf'')) w1 = (None, w2)"
    and "run_piped env (pipeline_cmd (job_dir env w)) w2 = (Inr (returncode, out, err), w3)"
    and "returncode \<noteq> 0"
  shows "process_pdf env (Some pdf_file) w = (Inr (msg_command_failed @ err, [], None, None, None), w3)"
  using assms
  by (simp add: process_pdf_staged process_pdf_try_nonzero fmt_opt_def)

text \<open>
  The loop: every item whose call returns adds one member, named after the item, that
  holds the text the call returned; the loop stops only at an exception raised outside
  the \<open>try\<close> block of \<open>process_pdf\<close>.
\<close>

lemma loop_step:
  assumes "process_pdf env (Some pdf_file) w = (Inr (log_text, extracted_text, rest), w1)"
    and "zip_writestr env zp (text_filename pdf_file) extracted_text w1 = (None, w2)"
  shows "process_multiple_pdfs_loop env zp (pdf_file # pdf_files) zipf w =
           process_multiple_pdfs_loop env zp pdf_files
             (zipf @ [(text_filename pdf_file, extracted_text)]) w2"
  using assms by (simp add: text_filename_def)

lemma loop_raise:
  assumes "process_pdf env (Some pdf_file) w = (Inl e, w1)"
  shows "process_multiple_pdfs_loop env zp (pdf_file # pdf_files) zipf w = (Some e, zipf, w1)"
  using assms by simp

lemma loop_archive:
  assumes "process_multiple_pdfs_loop env zp pdf_files zipf w = (raised, zipf', w')"
  shows "case raised of
           None \<Rightarrow> zipf' = zipf @ zip (map text_filename pdf_files) (batch_texts env zp pdf_files w) \<and>
                   length (batch_texts env zp pdf_files w) = length pdf_files
         | Some e \<Rightarrow> raised_outside_try env e"
  using assms
proof (induction pdf_files arbitrary: zipf w)
  case Nil
  then show ?case by simp
next
  case (Cons pdf_file pdf_files)
  show ?case
  proof (cases "process_pdf env (Some pdf_file) w")
    case run: (Pair res w1)
    show ?thesis
    proof (cases res)
      case (Inl e)
      with run Cons.prems have "raised = Some e" by simp
      moreover from run Inl have "raised_outside_try env e" by (auto intro: process_pdf_raises)
      ultimately show ?thesis by simp
    next
      case (Inr out)
      obtain log_text extracted_text rest where out: "out = (log_text, extracted_text, rest)"
        by (cases out)
      show ?thesis
      proof (cases "zip_writestr env zp (text_filename pdf_file) extracted_text w1")
        case wrote: (Pair z w2)
        show ?thesis
        proof (cases z)
          case (Some e)
          with run Inr out wrote Cons.prems have "raised = Some e"
            by (simp add: text_filename_def)
          moreover from wrote Some
          have "fst (zip_writestr env zp (text_filename pdf_file) extracted_text w1) = Some e" by simp
          then have "raised_outside_try env e" unfolding raised_outside_try_def by blast
          ultimately show ?thesis by simp
        next
          case None
          with run Inr out wrote Cons.prems
          have "process_multiple_pdfs_loop env zp pdf_files
                  (zipf @ [(text_filename pdf_file, extracted_text)]) w2 = (raised, zipf', w')"
            by (simp add: text_filename_def)
          from Cons.IH [OF this] run Inr out wrote None show ?thesis
            by (auto split: option.splits)
        qed
      qed
    qed
  qed
qed

lemma process_multiple_pdfs_run:
  assumes "pdf_files \<noteq> []"
    and "os_makedirs env (batch_dir env w) w = (None, w1)"
    and "zip_open env (batch_zip env w) w1 = (None, w2)"
    and "process_multiple_pdfs_loop env (batch_zip env w) pdf_files [] w2 = (raised, zipf, w3)"
    and "zip_close env (batch_zip env w) w3 = (None, w4)"
  shows "process_multiple_pdfs env (Some pdf_files) w =
           (case raised of
              Some e \<Rightarrow> (Inl e, Some zipf, w4)
            | None \<Rightarrow> (Inr (msg_all_done, Some (batch_zip env w)), Some zipf, w4))"
proof -
  obtain p ps where "pdf_files = p # ps"
    using assms(1) by (cases pdf_files) auto
  with assms(2-5) show ?thesis
    by (simp add: process_multiple_pdfs_def batch_dir_def batch_zip_def Let_def
          del: process_multiple_pdfs_loop.simps split: option.split)
qed

text \<open>The batch examples, item by item.\<close>

lemmas batch_defs = batch_env_def batch_start_def batch_zip_def batch_dir_def paper_done_def fs_defs

lemma batch_start_ok:
  "os_makedirs batch_env (batch_dir batch_env world0) world0 =
     (None, snd (os_makedirs batch_env (batch_dir batch_env world0) world0))"
  "zip_open batch_env (batch_zip batch_env world0)
     (snd (os_makedirs batch_env (batch_dir batch_env world0) world0)) =
     (None, batch_start batch_env world0)"
  by (simp_all add: batch_defs)

lemma batch_first_item:
  "\<exists>log rest. process_pdf batch_env (Some (ascii ''/tmp/gradio/paper.pdf'')) (batch_start batch_env world0) =
     (Inr (log, ascii ''hello'', rest), paper_done)"
proof -
  let ?env = "batch_env"
  let ?pdf = "ascii ''/tmp/gradio/paper.pdf''"
  let ?w0 = "batch_start batch_env world0"
  let ?job = "job_dir ?env ?w0"
  let ?w1 = "snd (os_makedirs ?env ?job ?w0)"
  let ?w2 = "snd (shutil_copy ?env ?pdf (path_join ?job (ascii ''input.pdf'')) ?w1)"
  let ?w3 = "snd (run_piped ?env (pipeline_cmd ?job) ?w2)"
  let ?out = "ascii ''olmocr_workspace/job_1700000000/results/output_0.jsonl''"
  let ?txt = "path_join ?job (text_filename ?pdf)"
  let ?w5 = "snd (open_w ?env ?txt (ascii ''utf-8'') ?w3)"
  let ?w6 = "snd (file_write ?env ?txt (ascii ''hello'') ?w5)"
  note defs = batch_env_def batch_start_def batch_zip_def batch_dir_def fs_defs
  have made: "os_makedirs ?env ?job ?w0 = (None, ?w1)"
    by (simp add: defs)
  have copied: "shutil_copy ?env ?pdf (path_join ?job (ascii ''input.pdf'')) ?w1 = (None, ?w2)"
    by (simp add: defs)
  have ran: "run_piped ?env (pipeline_cmd ?job) ?w2 = (Inr (0, ascii ''done'', []), ?w3)"
    by (simp add: defs)
  have present: "path_exists ?env (path_join ?job (ascii ''results'')) ?w3"
    by (simp add: defs)
  have listed: "path_glob ?env (path_join ?job (ascii ''results'')) (ascii ''output_*.jsonl'') ?w3 =
                  Inr (?out # [])"
    by (simp add: defs)
  have read: "read_text ?env ?out None ?w3 = Inr (hello_json @ ascii ''\<newline>'')"
    by (simp add: defs)
  have stripped: "strip (hello_json @ ascii ''\<newline>'') = hello_json"
    by (simp add: strip_def isspace_def hello_json_def ascii_def)
  have nonblank: "strip (hello_json @ ascii ''\<newline>'') \<noteq> []"
    unfolding stripped by (simp add: hello_json_def ascii_def)
  have parsed: "json_loads ?env (strip (hello_json @ ascii ''\<newline>'')) =
      Inr (PDict [(ascii ''text'', PStr (ascii ''hello'')),
                  (ascii ''metadata'', PDict [(ascii ''pages'', PInt 1)])])"
    unfolding stripped by (simp add: batch_env_def fs_env_def loads_known_def hello_dict_def)
  have got_text: "dict_get [(ascii ''text'', PStr (ascii ''hello'')),
                        (ascii ''metadata'', PDict [(ascii ''pages'', PInt 1)])]
                (ascii ''text'') (PStr text_not_found) = PStr (ascii ''hello'')"
    by (simp add: dict_get_def)
  have meta: "dict_get [(ascii ''text'', PStr (ascii ''hello'')),
                        (ascii ''metadata'', PDict [(ascii ''pages'', PInt 1)])]
                (ascii ''metadata'') (PDict []) = PDict [(ascii ''pages'', PInt 1)]"
    by (simp add: dict_get_def ascii_def)
  have viewed: "run_plain ?env (viewer_cmd ?out) ?w3 = (Inr 1, ?w3)"
    by (simp add: batch_env_def fs_env_def viewer_failing_def)
  have previews: "path_glob ?env (ascii ''dolma_previews'') (ascii ''*.html'') ?w3 = Inr []"
    by (simp add: defs)
  have opened: "open_w ?env ?txt (ascii ''utf-8'') ?w3 = (None, ?w5)"
    by (simp add: batch_env_def fs_env_def fs_open_w_def)
  have written: "file_write ?env ?txt (ascii ''hello'') ?w5 = (None, ?w6)"
    by (simp add: batch_env_def fs_env_def fs_write_def)
  have name: "text_filename ?pdf = ascii ''paper_extracted_text.txt''"
    by (simp add: name_defs ascii_def)
  have "?w6 = paper_done"
    unfolding name by (simp add: paper_done_def defs)
  with process_pdf_parsed [OF made copied ran present listed read nonblank parsed got_text meta
      viewed previews opened written]
  show ?thesis by auto
qed

lemma batch_missing_item:
  "process_pdf batch_env (Some (ascii ''/tmp/gradio/missing.pdf'')) paper_done =
     (Inl (Exception (ascii ''[Errno 2] No such file or directory: '' @ [0x27] @
                      ascii ''/tmp/gradio/missing.pdf'' @ [0x27])),
      snd (os_makedirs batch_env (job_dir batch_env paper_done) paper_done))"
proof -
  let ?w1 = "snd (os_makedirs batch_env (job_dir batch_env paper_done) paper_done)"
  have made: "os_makedirs batch_env (job_dir batch_env paper_done) paper_done = (None, ?w1)"
    by (simp add: batch_defs)
  have copied: "shutil_copy batch_env (ascii ''/tmp/gradio/missing.pdf'')
                  (path_join (job_dir batch_env paper_done) (ascii ''input.pdf'')) ?w1 =
                  (Some (Exception (ascii ''[Errno 2] No such file or directory: '' @ [0x27] @
                      ascii ''/tmp/gradio/missing.pdf'' @ [0x27])), ?w1)"
    by (simp add: batch_defs quoted_def)
  from process_pdf_copy_raises [OF made copied] show ?thesis .
qed

lemma batch_notes_item:
  "process_pdf batch_env (Some (ascii ''/tmp/gradio/notes.pdf'')) paper_done =
     (Inr (msg_command_failed @ ascii ''RuntimeError: no GPU found'', [], None, None, None),
      snd (shutil_copy batch_env (ascii ''/tmp/gradio/notes.pdf'')
             (path_join (job_dir batch_env paper_done) (ascii ''input.pdf''))
             (snd (os_makedirs batch_env (job_dir batch_env paper_done) paper_done))))"
proof -
  let ?pdf = "ascii ''/tmp/gradio/notes.pdf''"
  let ?job = "job_dir batch_env paper_done"
  let ?w1 = "snd (os_makedirs batch_env ?job paper_done)"
  let ?w2 = "snd (shutil_copy batch_env ?pdf (path_join ?job (ascii ''input.pdf'')) ?w1)"
  have made: "os_makedirs batch_env ?job paper_done = (None, ?w1)"
    by (simp add: batch_defs)
  have copied: "shutil_copy batch_env ?pdf (path_join ?job (ascii ''input.pdf'')) ?w1 = (None, ?w2)"
    by (simp add: batch_defs)
  have ran: "run_piped batch_env (pipeline_cmd ?job) ?w2 =
               (Inr (1, [], ascii ''RuntimeError: no GPU found''), ?w2)"
    by (simp add: batch_defs)
  from process_pdf_nonzero [OF made copied ran] show ?thesis by simp
qed

text \<open>
  C2, as the code has it. For a non-empty list of \<open>N\<close> inputs, either
  \<open>process_multiple_pdfs\<close> is left by an exception that making a directory, copying an
  input or an operation on the archive raised, or it returns the path of an archive of
  exactly \<open>N\<close> members, the \<open>i\<close>-th named after the base name of the \<open>i\<close>-th input without
  its extension, followed by \<^verbatim>\<open>_extracted_text.txt\<close>, and holding the text that
  \<open>process_pdf\<close> returned for that input. A failure inside the \<open>try\<close> block of
  \<open>process_pdf\<close> (the extraction tool, its output, the preview, the download file) never
  stops the batch: the item's text is then empty.
\<close>

theorem process_multiple_pdfs_archive:
  assumes "pdf_files \<noteq> []"
  shows "case process_multiple_pdfs env (Some pdf_files) w of
           (Inl e, zipf, w') \<Rightarrow> raised_outside_try env e
         | (Inr r, zipf, w') \<Rightarrow>
             r = (msg_all_done, Some (batch_zip env w)) \<and>
             zipf = Some (zip (map text_filename pdf_files)
                            (batch_texts env (batch_zip env w) pdf_files (batch_start env w))) \<and>
             length (batch_texts env (batch_zip env w) pdf_files (batch_start env w)) =
               length pdf_files"
proof -
  obtain p ps where files: "pdf_files = p # ps"
    using assms by (cases pdf_files) auto
  obtain m w1 where made: "os_makedirs env (batch_dir env w) w = (m, w1)"
    by (cases "os_makedirs env (batch_dir env w) w")
  obtain z w2 where opened: "zip_open env (batch_zip env w) w1 = (z, w2)"
    by (cases "zip_open env (batch_zip env w) w1")
  obtain raised zipf w3 where looped:
    "process_multiple_pdfs_loop env (batch_zip env w) pdf_files [] w2 = (raised, zipf, w3)"
    by (cases "process_multiple_pdfs_loop env (batch_zip env w) pdf_files [] w2")
  obtain c w4 where closed: "zip_close env (batch_zip env w) w3 = (c, w4)"
    by (cases "zip_close env (batch_zip env w) w3")
  show ?thesis
  proof (cases m)
    case (Some e)
    with made have "fst (os_makedirs env (batch_dir env w) w) = Some e" by simp
    then have "raised_outside_try env e" unfolding raised_outside_try_def by blast
    with files made Some show ?thesis
      by (simp add: process_multiple_pdfs_def batch_dir_def Let_def)
  next
    case m_None: None
    show ?thesis
    proof (cases z)
      case (Some e)
      with opened have "fst (zip_open env (batch_zip env w) w1) = Some e" by simp
      then have "raised_outside_try env e" unfolding raised_outside_try_def by blast
      with files made m_None opened Some show ?thesis
        by (simp add: process_multiple_pdfs_def batch_dir_def batch_zip_def Let_def)
    next
      case z_None: None
      have start: "batch_start env w = w2"
        using made opened by (simp add: batch_start_def)
      have run: "process_multiple_pdfs env (Some pdf_files) w =
                   (case c of
                      Some e \<Rightarrow> (Inl e, Some zipf, w4)
                    | None \<Rightarrow>
                        (case raised of
                           Some e \<Rightarrow> (Inl e, Some zipf, w4)
                         | None \<Rightarrow> (Inr (msg_all_done, Some (batch_zip env w)), Some zipf, w4)))"
        using files made m_None opened z_None looped closed
        by (simp add: process_multiple_pdfs_def batch_dir_def batch_zip_def Let_def
              del: process_multiple_pdfs_loop.simps split: option.split)
      show ?thesis
      proof (cases c)
        case (Some e)
        with closed have "fst (zip_close env (batch_zip env w) w3) = Some e" by simp
        then have "raised_outside_try env e" unfolding raised_outside_try_def by blast
        with run Some show ?thesis by simp
      next
        case None
        with run loop_archive [OF looped] start show ?thesis
          by (auto split: option.splits)
      qed
    qed
  qed
qed

theorem process_multiple_pdfs_archive_witness:
  "fst (process_multiple_pdfs batch_env
          (Some [ascii ''/tmp/gradio/paper.pdf'', ascii ''/tmp/gradio/notes.pdf'']) world0) =
     Inr (msg_all_done, Some (ascii ''olmocr_workspace/batch_1700000000/extracted_texts.zip'')) \<and>
   fst (snd (process_multiple_pdfs batch_env
          (Some [ascii ''/tmp/gradio/paper.pdf'', ascii ''/tmp/gradio/notes.pdf'']) world0)) =
     Some [(ascii ''paper_extracted_text.txt'', ascii ''hello''),
           (ascii ''notes_extracted_text.txt'', [])] \<and>
   batch_texts batch_env (batch_zip batch_env world0)
     [ascii ''/tmp/gradio/paper.pdf'', ascii ''/tmp/gradio/notes.pdf'']
     (batch_start batch_env world0) = [ascii ''hello'', []]"
proof -
  let ?paper = "ascii ''/tmp/gradio/paper.pdf''"
  let ?notes = "ascii ''/tmp/gradio/notes.pdf''"
  let ?zp = "batch_zip batch_env world0"
  let ?w8 = "snd (shutil_copy batch_env ?notes
                    (path_join (job_dir batch_env paper_done) (ascii ''input.pdf''))
                    (snd (os_makedirs batch_env (job_dir batch_env paper_done) paper_done)))"
  let ?texts = "batch_texts batch_env ?zp [?paper, ?notes] (batch_start batch_env world0)"
  obtain log rest where first:
    "process_pdf batch_env (Some ?paper) (batch_start batch_env world0) =
       (Inr (log, ascii ''hello'', rest), paper_done)"
    using batch_first_item by blast
  have names: "text_filename ?paper = ascii ''paper_extracted_text.txt''"
    "text_filename ?notes = ascii ''notes_extracted_text.txt''"
    by (simp_all add: name_defs ascii_def)
  have wrote1: "zip_writestr batch_env ?zp (text_filename ?paper) (ascii ''hello'') paper_done =
                  (None, paper_done)"
    by (simp add: batch_env_def fs_env_def)
  have wrote2: "zip_writestr batch_env ?zp (text_filename ?notes) [] ?w8 = (None, ?w8)"
    by (simp add: batch_env_def fs_env_def)
  have "process_multiple_pdfs_loop batch_env ?zp [?paper, ?notes] [] (batch_start batch_env world0) =
          process_multiple_pdfs_loop batch_env ?zp [?notes] ([] @ [(text_filename ?paper, ascii ''hello'')])
            paper_done"
    by (rule loop_step [OF first wrote1])
  also have "\<dots> = process_multiple_pdfs_loop batch_env ?zp []
                      (([] @ [(text_filename ?paper, ascii ''hello'')]) @ [(text_filename ?notes, [])]) ?w8"
    by (rule loop_step [OF batch_notes_item wrote2])
  finally have looped:
    "process_multiple_pdfs_loop batch_env ?zp [?paper, ?notes] [] (batch_start batch_env world0) =
       (None, [(ascii ''paper_extracted_text.txt'', ascii ''hello''),
               (ascii ''notes_extracted_text.txt'', [])], ?w8)"
    by (simp add: names)
  have closed: "zip_close batch_env ?zp ?w8 = (None, ?w8)"
    by (simp add: batch_env_def fs_env_def)
  have zip_name: "?zp = ascii ''olmocr_workspace/batch_1700000000/extracted_texts.zip''"
    by (simp add: batch_defs)
  have run: "process_multiple_pdfs batch_env (Some [?paper, ?notes]) world0 =
          (Inr (msg_all_done, Some ?zp),
           Some [(ascii ''paper_extracted_text.txt'', ascii ''hello''),
                 (ascii ''notes_extracted_text.txt'', [])], ?w8)"
    using process_multiple_pdfs_run [OF _ batch_start_ok looped closed] by simp
  from process_multiple_pdfs_archive [of "[?paper, ?notes]" batch_env world0] run
  have archive: "zip (map text_filename [?paper, ?notes]) ?texts =
                   [(ascii ''paper_extracted_text.txt'', ascii ''hello''),
                    (ascii ''notes_extracted_text.txt'', [])]"
    and len: "length ?texts = 2"
    by simp_all
  from len obtain a b where ab: "?texts = [a, b]"
    by (cases ?texts; cases "tl ?texts") auto
  with archive have "?texts = [ascii ''hello'', []]"
    by simp
  with run zip_name show ?thesis by simp
qed

text \<open>
  C2 as stated fails for a batch of two inputs of which the second is not there: the
  copy of line 72 raises, the exception leaves \<open>process_pdf\<close> and the batch, and the
  archive has one member.
\<close>

theorem process_multiple_pdfs_missing_input:
  "fst (process_multiple_pdfs batch_env
          (Some [ascii ''/tmp/gradio/paper.pdf'', ascii ''/tmp/gradio/missing.pdf'']) world0) =
     Inl (Exception (ascii ''[Errno 2] No such file or directory: '' @ [0x27] @
                     ascii ''/tmp/gradio/missing.pdf'' @ [0x27])) \<and>
   fst (snd (process_multiple_pdfs batch_env
          (Some [ascii ''/tmp/gradio/paper.pdf'', ascii ''/tmp/gradio/missing.pdf'']) world0)) =
     Some [(ascii ''paper_extracted_text.txt'', ascii ''hello'')]"
proof -
  let ?paper = "ascii ''/tmp/gradio/paper.pdf''"
  let ?missing = "ascii ''/tmp/gradio/missing.pdf''"
  let ?zp = "batch_zip batch_env world0"
  let ?e = "Exception (ascii ''[Errno 2] No such file or directory: '' @ [0x27] @
                       ascii ''/tmp/gradio/missing.pdf'' @ [0x27])"
  let ?w7 = "snd (os_makedirs batch_env (job_dir batch_env paper_done) paper_done)"
  obtain log rest where first:
    "process_pdf batch_env (Some ?paper) (batch_start batch_env world0) =
       (Inr (log, ascii ''hello'', rest), paper_done)"
    using batch_first_item by blast
  have name: "text_filename ?paper = ascii ''paper_extracted_text.txt''"
    by (simp add: name_defs ascii_def)
  have wrote: "zip_writestr batch_env ?zp (text_filename ?paper) (ascii ''hello'') paper_done =
                 (None, paper_done)"
    by (simp add: batch_env_def fs_env_def)
  have "process_multiple_pdfs_loop batch_env ?zp [?paper, ?missing] [] (batch_start batch_env world0) =
          process_multiple_pdfs_loop batch_env ?zp [?missing] ([] @ [(text_filename ?paper, ascii ''hello'')])
            paper_done"
    by (rule loop_step [OF first wrote])
  also have "\<dots> = (Some ?e, [] @ [(text_filename ?paper, ascii ''hello'')], ?w7)"
    by (rule loop_raise [OF batch_missing_item])
  finally have looped:
    "process_multiple_pdfs_loop batch_env ?zp [?paper, ?missing] [] (batch_start batch_env world0) =
       (Some ?e, [(ascii ''paper_extracted_text.txt'', ascii ''hello'')], ?w7)"
    by (simp add: name)
  have closed: "zip_close batch_env ?zp ?w7 = (None, ?w7)"
    by (simp add: batch_env_def fs_env_def)
  have "process_multiple_pdfs batch_env (Some [?paper, ?missing]) world0 =
          (Inl ?e, Some [(ascii ''paper_extracted_text.txt'', ascii ''hello'')], ?w7)"
    using process_multiple_pdfs_run [OF _ batch_start_ok looped closed] by simp
  then show ?thesis by simp
qed

end
